theory Spec2Isabelle
  imports Main "HOL-Library.Word"
begin

section \<open>The collection scanner of Strawberry: data model\<close>

text \<open>
  The development embeds \<^verbatim>\<open>src/collection/collectionwatcher.cpp\<close> and the parts of
  \<^verbatim>\<open>src/core/song.cpp\<close> it relies on. A \<^verbatim>\<open>QString\<close> is a \<open>string\<close>. A
  \<^verbatim>\<open>QUrl\<close> of a local file is represented by the local path itself, so that
  \<^verbatim>\<open>QUrl::fromLocalFile\<close>, \<^verbatim>\<open>toLocalFile\<close> and \<^verbatim>\<open>path\<close> are the identity and the
  empty URL is the empty string. C++ \<^verbatim>\<open>uint\<close> values (epoch seconds as returned by
  \<^verbatim>\<open>toTime_t\<close>) are 32-bit words; the \<^verbatim>\<open>int\<close> field \<^verbatim>\<open>mtime_\<close> of a song is only ever
  read through \<^verbatim>\<open>uint Song::mtime()\<close>, so it is kept as the same 32-bit pattern.
  Other \<^verbatim>\<open>int\<close> fields (ids, counters) are never near their bounds and are \<open>int\<close>.
\<close>

type_synonym QString = string
type_synonym QUrl = string
type_synonym uint = "32 word"

text \<open>The enumerators of \<^verbatim>\<open>Song::Source\<close> that \<^verbatim>\<open>song.cpp\<close> names; the declaration
  itself is in \<^verbatim>\<open>song.h\<close>, which is not among the sources.\<close>

datatype Source =
  Source_Unknown | Source_LocalFile | Source_Collection | Source_CDDA | Source_Device
  | Source_Stream | Source_Tidal | Source_Subsonic | Source_Qobuz

text \<open>\<^verbatim>\<open>struct Song::Private\<close>, restricted to the fields that the scanner, \<^verbatim>\<open>IsMetadataEqual\<close>
  and \<^verbatim>\<open>MergeUserSetData\<close> read or write. Field \<^verbatim>\<open>x_\<close> of the source is \<open>d_x\<close>.\<close>

record Song =
  d_valid :: bool
  d_id :: int
  d_title :: QString
  d_album :: QString
  d_artist :: QString
  d_albumartist :: QString
  d_track :: int
  d_disc :: int
  d_year :: int
  d_originalyear :: int
  d_genre :: QString
  d_compilation :: bool
  d_composer :: QString
  d_performer :: QString
  d_grouping :: QString
  d_comment :: QString
  d_lyrics :: QString
  d_artist_id :: int
  d_album_id :: QString
  d_song_id :: int
  d_beginning :: int
  d_end :: int
  d_bitrate :: int
  d_samplerate :: int
  d_bitdepth :: int
  d_source :: Source
  d_directory_id :: int
  d_url :: QUrl
  d_mtime :: uint
  d_unavailable :: bool
  d_playcount :: int
  d_skipcount :: int
  d_lastplayed :: int
  d_art_automatic :: QUrl
  d_art_manual :: QUrl
  d_cue_path :: QString

type_synonym SongList = "Song list"

text \<open>\<^verbatim>\<open>Song::Private::Private(Source)\<close>: the freshly constructed song.\<close>

definition Song_new :: "Source \<Rightarrow> Song" where
  "Song_new src = \<lparr> d_valid = False, d_id = -1,
     d_title = [], d_album = [], d_artist = [], d_albumartist = [],
     d_track = -1, d_disc = -1, d_year = -1, d_originalyear = -1,
     d_genre = [], d_compilation = False,
     d_composer = [], d_performer = [], d_grouping = [], d_comment = [], d_lyrics = [],
     d_artist_id = -1, d_album_id = [], d_song_id = -1,
     d_beginning = 0, d_end = -1,
     d_bitrate = -1, d_samplerate = -1, d_bitdepth = -1,
     d_source = src, d_directory_id = -1, d_url = [], d_mtime = -1,
     d_unavailable = False, d_playcount = 0, d_skipcount = 0, d_lastplayed = -1,
     d_art_automatic = [], d_art_manual = [], d_cue_path = [] \<rparr>"

definition kEmbeddedCover :: QString where
  "kEmbeddedCover = ''(embedded)''"

definition has_embedded_cover :: "Song \<Rightarrow> bool" where
  "has_embedded_cover s \<longleftrightarrow> d_art_automatic s = kEmbeddedCover"

definition has_cue :: "Song \<Rightarrow> bool" where
  "has_cue s \<longleftrightarrow> d_cue_path s \<noteq> []"

definition length_nanosec :: "Song \<Rightarrow> int" where
  "length_nanosec s = d_end s - d_beginning s"

definition IsMetadataEqual :: "Song \<Rightarrow> Song \<Rightarrow> bool" where
  "IsMetadataEqual s other \<longleftrightarrow>
     d_title s = d_title other \<and>
     d_album s = d_album other \<and>
     d_artist s = d_artist other \<and>
     d_albumartist s = d_albumartist other \<and>
     d_track s = d_track other \<and>
     d_disc s = d_disc other \<and>
     d_year s = d_year other \<and>
     d_originalyear s = d_originalyear other \<and>
     d_genre s = d_genre other \<and>
     d_compilation s = d_compilation other \<and>
     d_composer s = d_composer other \<and>
     d_performer s = d_performer other \<and>
     d_grouping s = d_grouping other \<and>
     d_comment s = d_comment other \<and>
     d_lyrics s = d_lyrics other \<and>
     d_artist_id s = d_artist_id other \<and>
     d_album_id s = d_album_id other \<and>
     d_song_id s = d_song_id other \<and>
     d_beginning s = d_beginning other \<and>
     length_nanosec s = length_nanosec other \<and>
     d_bitrate s = d_bitrate other \<and>
     d_samplerate s = d_samplerate other \<and>
     d_bitdepth s = d_bitdepth other \<and>
     d_art_automatic s = d_art_automatic other \<and>
     d_art_manual s = d_art_manual other \<and>
     d_cue_path s = d_cue_path other"

definition MergeUserSetData :: "Song \<Rightarrow> Song \<Rightarrow> Song" where
  "MergeUserSetData s other =
     s\<lparr> d_playcount := d_playcount other,
        d_skipcount := d_skipcount other,
        d_lastplayed := d_lastplayed other,
        d_art_manual := d_art_manual other \<rparr>"

text \<open>Modelled from the spec: the header \<^verbatim>\<open>directory.h\<close>, which declares \<^verbatim>\<open>Directory\<close>
  and \<^verbatim>\<open>Subdirectory\<close>, is not among the sources. A Directory is an opaque integer id
  and an absolute path. A Subdirectory is the owning directory id, an absolute path and
  the last known modification time in epoch seconds, where \<open>0\<close> stands for a deleted
  subdirectory. The watcher passes a default-constructed \<^verbatim>\<open>Subdirectory\<close> for a
  directory it has never seen and takes directory id \<open>-1\<close> for "not known before", so
  that is the id of the default value.\<close>

record Directory =
  dir_path :: QString
  dir_id :: int

record Subdirectory =
  directory_id :: int
  path :: QString
  mtime :: uint

type_synonym SubdirectoryList = "Subdirectory list"

definition Subdirectory_new :: Subdirectory where
  "Subdirectory_new = \<lparr> directory_id = -1, path = [], mtime = 0 \<rparr>"

subsection \<open>Collaborators\<close>

text \<open>
  Everything the watcher asks of the outside world is a field of \<open>Env\<close>: the
  filesystem probe (\<^verbatim>\<open>QFileInfo\<close>, \<^verbatim>\<open>QFile\<close>, \<^verbatim>\<open>QDir\<close>, \<^verbatim>\<open>QDirIterator\<close>), the tag
  reader, the cue parser, the collection backend, the image loader, the string
  helpers of the header \<^verbatim>\<open>collectionwatcher.h\<close>, which is not among the sources, and
  two string functions of Qt that depend on Unicode tables: \<open>normalized_D\<close> is
  \<^verbatim>\<open>QString::normalized(NormalizationForm_D)\<close> and \<open>contains_insensitive s sub\<close> is
  \<^verbatim>\<open>s.contains(sub, Qt::CaseInsensitive)\<close>. The
  directory listing and the existence test are separate fields, so a file that was
  listed may be gone when it is looked at.
\<close>

record Env =
  isSymLink :: "QString \<Rightarrow> bool"
  symLinkTarget :: "QString \<Rightarrow> QString"
  file_exists :: "QString \<Rightarrow> bool"
  dir_has :: "QString \<Rightarrow> QString \<Rightarrow> bool"
  lastModified :: "QString \<Rightarrow> uint"
  lastModified_isValid :: "QString \<Rightarrow> bool"
  isDir :: "QString \<Rightarrow> bool"
  isHidden :: "QString \<Rightarrow> bool"
  dir_entries :: "QString \<Rightarrow> QString list"
  separator :: char
  ReadFileBlocking :: "QString \<Rightarrow> Song \<Rightarrow> Song"
  IsMediaFileBlocking :: "QString \<Rightarrow> bool"
  cue_Load :: "QString \<Rightarrow> QString \<Rightarrow> SongList"
  FindSongsInDirectory :: "int \<Rightarrow> SongList"
  SubdirsInDirectory :: "int \<Rightarrow> SubdirectoryList"
  GetSongsByUrl :: "QUrl \<Rightarrow> SongList"
  QImage_size :: "QString \<Rightarrow> (int \<times> int) option"
  normalized_D :: "QString \<Rightarrow> QString"
  contains_insensitive :: "QString \<Rightarrow> QString \<Rightarrow> bool"
  NoExtensionPart :: "QString \<Rightarrow> QString"
  ExtensionPart :: "QString \<Rightarrow> QString"
  DirectoryPart :: "QString \<Rightarrow> QString"

text \<open>What the watcher does to the outside world, in the order it does it: the
  signals it emits, its calls on the task manager and on the filesystem watcher, each
  directory listing it opens and each call on the tag reader and on the cue parser.
  Queries of the backend and image loads are reads of \<open>Env\<close> and leave no mark.\<close>

datatype action =
    StartTask QString
  | ScanStarted int
  | SetTaskProgress int int int
  | SetTaskFinished int
  | NewOrUpdatedSongs SongList
  | SongsMTimeUpdated SongList
  | SongsDeleted SongList
  | SongsReadded SongList
  | SubdirsDiscovered SubdirectoryList
  | SubdirsMTimeUpdated SubdirectoryList
  | AddPath QString
  | RemovePath QString
  | ListDirectory QString
  | CallReadFile QString
  | CallIsMediaFile QString
  | CallCueLoad QString

subsection \<open>Watcher and transaction state\<close>

text \<open>\<^verbatim>\<open>watched_dirs_\<close> is a \<^verbatim>\<open>QMap<int, Directory>\<close>, kept as an association list;
  \<^verbatim>\<open>subdir_mapping_\<close> is a \<^verbatim>\<open>QHash<QString, Directory>\<close>, kept as a map.
  \<^verbatim>\<open>stop_requested_\<close> is written by \<^verbatim>\<open>Stop\<close> from outside the scan; the functions
  below read it wherever the source does and never write it.\<close>

record CollectionWatcher =
  w_source :: Source
  w_device_name :: QString
  w_scan_on_startup :: bool
  w_monitor :: bool
  w_live_scanning :: bool
  w_prevent_delete :: bool
  w_stop_requested :: bool
  w_watched_dirs :: "(int \<times> Directory) list"
  w_subdir_mapping :: "QString \<rightharpoonup> Directory"
  w_best_image_filters :: "QString list"
  trace :: "action list"

record ScanTransaction =
  t_progress :: int
  t_progress_max :: int
  t_dir :: int
  t_incremental :: bool
  t_ignores_mtime :: bool
  t_prevent_delete :: bool
  t_task_id :: int
  t_cached_songs :: SongList
  t_cached_songs_dirty :: bool
  t_known_subdirs :: SubdirectoryList
  t_known_subdirs_dirty :: bool
  new_songs :: SongList
  touched_songs :: SongList
  deleted_songs :: SongList
  readded_songs :: SongList
  new_subdirs :: SubdirectoryList
  touched_subdirs :: SubdirectoryList
  deleted_subdirs :: SubdirectoryList

definition emit :: "action \<Rightarrow> CollectionWatcher \<Rightarrow> CollectionWatcher" where
  "emit a w = w\<lparr> trace := trace w @ [a] \<rparr>"

section \<open>The scan transaction\<close>

text \<open>The constructor; \<open>task\<close> is the id that \<^verbatim>\<open>TaskManager::StartTask\<close> hands back.\<close>

definition ScanTransaction_new ::
  "int \<Rightarrow> int \<Rightarrow> bool \<Rightarrow> bool \<Rightarrow> bool \<Rightarrow> CollectionWatcher
     \<Rightarrow> CollectionWatcher \<times> ScanTransaction" where
  "ScanTransaction_new task dir incremental ignores_mtime prevent_delete w =
     (let description =
            (if w_device_name w = [] then ''Updating collection''
             else ''Updating '' @ w_device_name w);
          w1 = emit (StartTask description) w;
          w2 = emit (ScanStarted task) w1
      in (w2, \<lparr> t_progress = 0, t_progress_max = 0, t_dir = dir,
                t_incremental = incremental, t_ignores_mtime = ignores_mtime,
                t_prevent_delete = prevent_delete, t_task_id = task,
                t_cached_songs = [], t_cached_songs_dirty = True,
                t_known_subdirs = [], t_known_subdirs_dirty = True,
                new_songs = [], touched_songs = [], deleted_songs = [],
                readded_songs = [], new_subdirs = [], touched_subdirs = [],
                deleted_subdirs = [] \<rparr>))"

definition AddToProgress ::
  "int \<Rightarrow> CollectionWatcher \<times> ScanTransaction \<Rightarrow> CollectionWatcher \<times> ScanTransaction" where
  "AddToProgress n wt =
     (let t = (snd wt)\<lparr> t_progress := t_progress (snd wt) + n \<rparr>
      in (emit (SetTaskProgress (t_task_id t) (t_progress t) (t_progress_max t)) (fst wt), t))"

definition AddToProgressMax ::
  "int \<Rightarrow> CollectionWatcher \<times> ScanTransaction \<Rightarrow> CollectionWatcher \<times> ScanTransaction" where
  "AddToProgressMax n wt =
     (let t = (snd wt)\<lparr> t_progress_max := t_progress_max (snd wt) + n \<rparr>
      in (emit (SetTaskProgress (t_task_id t) (t_progress t) (t_progress_max t)) (fst wt), t))"

definition AddWatch :: "Env \<Rightarrow> Directory \<Rightarrow> QString \<Rightarrow> CollectionWatcher \<Rightarrow> CollectionWatcher" where
  "AddWatch env dir p w =
     (if \<not> file_exists env p then w
      else (emit (AddPath p) w)\<lparr> w_subdir_mapping := (w_subdir_mapping w)(p \<mapsto> dir) \<rparr>)"

text \<open>\<^verbatim>\<open>subdir_mapping_.keys(dir)\<close> are the keys mapped to \<open>dir\<close>; the loop acts on the one
  equal to the subdirectory's path, if there is one.\<close>

definition RemoveWatch :: "Directory \<Rightarrow> Subdirectory \<Rightarrow> CollectionWatcher \<Rightarrow> CollectionWatcher" where
  "RemoveWatch dir subdir w =
     (if w_subdir_mapping w (path subdir) = Some dir
      then (emit (RemovePath (path subdir)) w)
             \<lparr> w_subdir_mapping := (w_subdir_mapping w)(path subdir := None) \<rparr>
      else w)"

definition remove_deleted_watches ::
  "int \<Rightarrow> SubdirectoryList \<Rightarrow> CollectionWatcher \<Rightarrow> CollectionWatcher" where
  "remove_deleted_watches dir subdirs w =
     fold (\<lambda>subdir w'. case map_of (w_watched_dirs w') dir of
                          Some d \<Rightarrow> RemoveWatch d subdir w'
                        | None \<Rightarrow> w') subdirs w"

definition add_new_watches ::
  "Env \<Rightarrow> int \<Rightarrow> SubdirectoryList \<Rightarrow> CollectionWatcher \<Rightarrow> CollectionWatcher" where
  "add_new_watches env dir subdirs w =
     fold (\<lambda>subdir w'. case map_of (w_watched_dirs w') dir of
                          Some d \<Rightarrow> AddWatch env d (path subdir) w'
                        | None \<Rightarrow> w') subdirs w"

text \<open>\<^verbatim>\<open>CommitNewOrUpdatedSongs\<close> is a sequence of seven blocks; each is a function
  of its own here, and the commit runs them in the order of the source.\<close>

definition commit_new_songs ::
  "CollectionWatcher \<times> ScanTransaction \<Rightarrow> CollectionWatcher \<times> ScanTransaction" where
  "commit_new_songs wt =
     (if new_songs (snd wt) \<noteq> []
      then (emit (NewOrUpdatedSongs (new_songs (snd wt))) (fst wt), (snd wt)\<lparr> new_songs := [] \<rparr>)
      else wt)"

definition commit_touched_songs ::
  "CollectionWatcher \<times> ScanTransaction \<Rightarrow> CollectionWatcher \<times> ScanTransaction" where
  "commit_touched_songs wt =
     (if touched_songs (snd wt) \<noteq> []
      then (emit (SongsMTimeUpdated (touched_songs (snd wt))) (fst wt),
            (snd wt)\<lparr> touched_songs := [] \<rparr>)
      else wt)"

definition commit_deleted_songs ::
  "CollectionWatcher \<times> ScanTransaction \<Rightarrow> CollectionWatcher \<times> ScanTransaction" where
  "commit_deleted_songs wt =
     (if deleted_songs (snd wt) \<noteq> [] \<and> \<not> t_prevent_delete (snd wt)
      then (emit (SongsDeleted (deleted_songs (snd wt))) (fst wt),
            (snd wt)\<lparr> deleted_songs := [] \<rparr>)
      else wt)"

definition commit_readded_songs ::
  "CollectionWatcher \<times> ScanTransaction \<Rightarrow> CollectionWatcher \<times> ScanTransaction" where
  "commit_readded_songs wt =
     (if readded_songs (snd wt) \<noteq> []
      then (emit (SongsReadded (readded_songs (snd wt))) (fst wt),
            (snd wt)\<lparr> readded_songs := [] \<rparr>)
      else wt)"

definition commit_new_subdirs ::
  "CollectionWatcher \<times> ScanTransaction \<Rightarrow> CollectionWatcher \<times> ScanTransaction" where
  "commit_new_subdirs wt =
     (if new_subdirs (snd wt) \<noteq> []
      then (emit (SubdirsDiscovered (new_subdirs (snd wt))) (fst wt), snd wt)
      else wt)"

definition commit_touched_subdirs ::
  "CollectionWatcher \<times> ScanTransaction \<Rightarrow> CollectionWatcher \<times> ScanTransaction" where
  "commit_touched_subdirs wt =
     (if touched_subdirs (snd wt) \<noteq> []
      then (emit (SubdirsMTimeUpdated (touched_subdirs (snd wt))) (fst wt),
            (snd wt)\<lparr> touched_subdirs := [] \<rparr>)
      else wt)"

definition commit_watches ::
  "Env \<Rightarrow> CollectionWatcher \<times> ScanTransaction \<Rightarrow> CollectionWatcher \<times> ScanTransaction" where
  "commit_watches env wt =
     (let w1 = remove_deleted_watches (t_dir (snd wt)) (deleted_subdirs (snd wt)) (fst wt);
          w2 = (if w_monitor w1 then add_new_watches env (t_dir (snd wt)) (new_subdirs (snd wt)) w1
                else w1)
      in (w2, (snd wt)\<lparr> deleted_subdirs := [], new_subdirs := [] \<rparr>))"

definition CommitNewOrUpdatedSongs ::
  "Env \<Rightarrow> CollectionWatcher \<times> ScanTransaction \<Rightarrow> CollectionWatcher \<times> ScanTransaction" where
  "CommitNewOrUpdatedSongs env wt =
     commit_watches env
       (commit_touched_subdirs
         (commit_new_subdirs
           (commit_readded_songs
             (commit_deleted_songs
               (commit_touched_songs
                 (commit_new_songs wt))))))"

text \<open>The destructor. The transaction object is gone afterwards, so only the watcher
  is returned.\<close>

definition ScanTransaction_destroy ::
  "Env \<Rightarrow> CollectionWatcher \<times> ScanTransaction \<Rightarrow> CollectionWatcher" where
  "ScanTransaction_destroy env wt =
     (let wt' = (if \<not> w_stop_requested (fst wt) then CommitNewOrUpdatedSongs env wt else wt)
      in emit (SetTaskFinished (t_task_id (snd wt'))) (fst wt'))"

text \<open>\<^verbatim>\<open>section('/', 0, -2)\<close>: everything before the last slash, empty without one.\<close>

definition section_dir :: "QString \<Rightarrow> QString" where
  "section_dir s =
     (if CHR ''/'' \<in> set s then rev (tl (dropWhile (\<lambda>c. c \<noteq> CHR ''/'') (rev s))) else [])"

text \<open>\<^verbatim>\<open>s.left(s.lastIndexOf(sep))\<close>: everything before the last separator; without
  one, \<^verbatim>\<open>lastIndexOf\<close> is \<open>-1\<close> and \<^verbatim>\<open>left(-1)\<close> is the whole string.\<close>

definition left_of_last :: "char \<Rightarrow> QString \<Rightarrow> QString" where
  "left_of_last sep s =
     (if sep \<in> set s then rev (tl (dropWhile (\<lambda>c. c \<noteq> sep) (rev s))) else s)"

definition FindSongsInSubdirectory ::
  "Env \<Rightarrow> QString \<Rightarrow> ScanTransaction \<Rightarrow> SongList \<times> ScanTransaction" where
  "FindSongsInSubdirectory env p t =
     (let t' = (if t_cached_songs_dirty t
                then t\<lparr> t_cached_songs := FindSongsInDirectory env (t_dir t),
                        t_cached_songs_dirty := False \<rparr>
                else t)
      in (filter (\<lambda>song. section_dir (d_url song) = p) (t_cached_songs t'), t'))"

definition SetKnownSubdirs :: "SubdirectoryList \<Rightarrow> ScanTransaction \<Rightarrow> ScanTransaction" where
  "SetKnownSubdirs subdirs t = t\<lparr> t_known_subdirs := subdirs, t_known_subdirs_dirty := False \<rparr>"

definition fetch_known_subdirs :: "Env \<Rightarrow> ScanTransaction \<Rightarrow> ScanTransaction" where
  "fetch_known_subdirs env t =
     (if t_known_subdirs_dirty t then SetKnownSubdirs (SubdirsInDirectory env (t_dir t)) t else t)"

definition HasSeenSubdir :: "Env \<Rightarrow> QString \<Rightarrow> ScanTransaction \<Rightarrow> bool \<times> ScanTransaction" where
  "HasSeenSubdir env p t =
     (let t' = fetch_known_subdirs env t
      in (list_ex (\<lambda>subdir. path subdir = p \<and> mtime subdir \<noteq> 0) (t_known_subdirs t'), t'))"

definition GetImmediateSubdirs ::
  "Env \<Rightarrow> QString \<Rightarrow> ScanTransaction \<Rightarrow> SubdirectoryList \<times> ScanTransaction" where
  "GetImmediateSubdirs env p t =
     (let t' = fetch_known_subdirs env t
      in (filter (\<lambda>subdir. left_of_last (separator env) (path subdir) = p \<and> mtime subdir \<noteq> 0)
            (t_known_subdirs t'), t'))"

definition GetAllSubdirs :: "Env \<Rightarrow> ScanTransaction \<Rightarrow> SubdirectoryList \<times> ScanTransaction" where
  "GetAllSubdirs env t = (let t' = fetch_known_subdirs env t in (t_known_subdirs t', t'))"

section \<open>The watcher\<close>

subsection \<open>Strings of Qt\<close>

fun startsWith :: "QString \<Rightarrow> QString \<Rightarrow> bool" where
  "startsWith s [] = True"
| "startsWith [] (p # ps) = False"
| "startsWith (c # cs) (p # ps) = (c = p \<and> startsWith cs ps)"

text \<open>\<^verbatim>\<open>QFileInfo::fileName\<close>: what follows the last slash.\<close>

definition fileName :: "QString \<Rightarrow> QString" where
  "fileName p = rev (takeWhile (\<lambda>c. c \<noteq> CHR ''/'') (rev p))"

definition kNoMediaFile :: QString where
  "kNoMediaFile = ''.nomedia''"

definition kNoMusicFile :: QString where
  "kNoMusicFile = ''.nomusic''"

definition sValidImages :: "QString list" where
  "sValidImages = [''jpg'', ''png'', ''gif'', ''jpeg'']"

subsection \<open>Helpers of the walker\<close>

definition GetMtimeForCue :: "Env \<Rightarrow> QString \<Rightarrow> uint" where
  "GetMtimeForCue env cue_path =
     (if cue_path = [] then 0
      else if \<not> file_exists env cue_path then 0
      else if lastModified_isValid env cue_path then lastModified env cue_path else 0)"

definition FindSongByPath :: "SongList \<Rightarrow> QString \<Rightarrow> Song option" where
  "FindSongByPath list p = find (\<lambda>song. d_url song = p) list"

text \<open>The first loop of \<^verbatim>\<open>PickBestImage\<close>: the filters in order, stopping at the first
  one that leaves something in \<open>filtered\<close>.\<close>

fun filter_images ::
  "Env \<Rightarrow> QString list \<Rightarrow> QString list \<Rightarrow> QString list \<Rightarrow> QString list" where
  "filter_images env [] images filtered = filtered"
| "filter_images env (filter_text # rest) images filtered =
     (let filtered' = filtered
            @ filter (\<lambda>img. contains_insensitive env (fileName img) filter_text) images
      in if filtered' \<noteq> [] then filtered' else filter_images env rest images filtered')"

text \<open>\<^verbatim>\<open>int size = image.width() * image.height()\<close>, a 32-bit product.\<close>

definition int32 :: "int \<Rightarrow> int" where
  "int32 x = sint (word_of_int x :: 32 word)"

text \<open>The second loop: the first image of the largest area so far; an image that does
  not load is passed over, and a stop request ends the loop.\<close>

fun biggest_image :: "Env \<Rightarrow> bool \<Rightarrow> QString list \<Rightarrow> int \<Rightarrow> QString \<Rightarrow> QString" where
  "biggest_image env stop [] biggest_size biggest_path = biggest_path"
| "biggest_image env stop (p # ps) biggest_size biggest_path =
     (if stop then biggest_path
      else case QImage_size env p of
             None \<Rightarrow> biggest_image env stop ps biggest_size biggest_path
           | Some (width, height) \<Rightarrow>
               (let size = int32 (width * height)
                in if size > biggest_size then biggest_image env stop ps size p
                   else biggest_image env stop ps biggest_size biggest_path))"

definition PickBestImage :: "Env \<Rightarrow> CollectionWatcher \<Rightarrow> QString list \<Rightarrow> QString" where
  "PickBestImage env w images =
     (let filtered = filter_images env (w_best_image_filters w) images [];
          filtered = (if filtered = [] then images else filtered)
      in biggest_image env (w_stop_requested w) filtered 0 [])"

text \<open>\<open>album_art\<close> is the \<^verbatim>\<open>QMap<QString, QStringList>\<close> of one directory visit; the
  choice among several images is written back to it.\<close>

definition ImageForSong ::
  "Env \<Rightarrow> CollectionWatcher \<Rightarrow> QString \<Rightarrow> (QString \<rightharpoonup> QString list)
     \<Rightarrow> QUrl \<times> (QString \<rightharpoonup> QString list)" where
  "ImageForSong env w p album_art =
     (let dir = DirectoryPart env p
      in case album_art dir of
           None \<Rightarrow> ([], album_art)
         | Some images \<Rightarrow>
             if length images = 1 then (images ! 0, album_art)
             else (let best_image = PickBestImage env w images
                   in (best_image, album_art(dir \<mapsto> [best_image]))))"

definition PreserveUserSetData ::
  "QUrl \<Rightarrow> Song \<Rightarrow> Song \<Rightarrow> ScanTransaction \<Rightarrow> Song \<times> ScanTransaction" where
  "PreserveUserSetData img matching_song out0 t =
     (let out1 = out0\<lparr> d_id := d_id matching_song \<rparr>;
          out2 = (if \<not> has_embedded_cover out1 then out1\<lparr> d_art_automatic := img \<rparr> else out1);
          out = MergeUserSetData out2 matching_song
      in if d_unavailable matching_song then (out, t\<lparr> new_songs := new_songs t @ [out] \<rparr>)
         else if \<not> IsMetadataEqual matching_song out then (out, t\<lparr> new_songs := new_songs t @ [out] \<rparr>)
         else (out, t\<lparr> touched_songs := touched_songs t @ [out] \<rparr>))"

text \<open>\<^verbatim>\<open>sections_map[...]\<close> on a \<^verbatim>\<open>QHash<quint64, Song>\<close>: the last stored section with
  that beginning, and a default-constructed (invalid) song when there is none.\<close>

definition sections_map :: "SongList \<Rightarrow> int \<Rightarrow> Song" where
  "sections_map old_sections b =
     (case find (\<lambda>song. d_beginning song = b) (rev old_sections) of
        Some song \<Rightarrow> song
      | None \<Rightarrow> Song_new Source_Unknown)"

fun update_cue_sections ::
  "QUrl \<Rightarrow> Source \<Rightarrow> SongList \<Rightarrow> SongList \<Rightarrow> int set \<times> ScanTransaction
     \<Rightarrow> int set \<times> ScanTransaction" where
  "update_cue_sections img src old_sections [] ut = ut"
| "update_cue_sections img src old_sections (cue_song0 # rest) ut =
     (let t = snd ut;
          cue_song = cue_song0\<lparr> d_source := src, d_directory_id := t_dir t \<rparr>;
          matching = sections_map old_sections (d_beginning cue_song)
      in if \<not> d_valid matching
         then update_cue_sections img src old_sections rest
                (fst ut, t\<lparr> new_songs := new_songs t @ [cue_song] \<rparr>)
         else update_cue_sections img src old_sections rest
                (insert (d_id matching) (fst ut), snd (PreserveUserSetData img matching cue_song t)))"

definition UpdateCueAssociatedSongs ::
  "Env \<Rightarrow> QString \<Rightarrow> QString \<Rightarrow> QString \<Rightarrow> QUrl
     \<Rightarrow> CollectionWatcher \<times> ScanTransaction \<Rightarrow> CollectionWatcher \<times> ScanTransaction" where
  "UpdateCueAssociatedSongs env file p matching_cue img wt =
     (let old_sections = GetSongsByUrl env file;
          w = emit (CallCueLoad matching_cue) (fst wt);
          (used_ids, t) = update_cue_sections img (w_source w) old_sections
                            (cue_Load env matching_cue p) ({}, snd wt)
      in (w, t\<lparr> deleted_songs := deleted_songs t
                   @ filter (\<lambda>matching. d_id matching \<notin> used_ids) old_sections \<rparr>))"

definition UpdateNonCueAssociatedSong ::
  "Env \<Rightarrow> QString \<Rightarrow> Song \<Rightarrow> QUrl \<Rightarrow> bool
     \<Rightarrow> CollectionWatcher \<times> ScanTransaction \<Rightarrow> CollectionWatcher \<times> ScanTransaction" where
  "UpdateNonCueAssociatedSong env file matching_song img cue_deleted wt =
     (let t1 = (if cue_deleted
                then (snd wt)\<lparr> deleted_songs := deleted_songs (snd wt)
                        @ filter (\<lambda>song. \<not> IsMetadataEqual song matching_song)
                            (GetSongsByUrl env file) \<rparr>
                else snd wt);
          song0 = (Song_new (w_source (fst wt)))\<lparr> d_directory_id := t_dir t1 \<rparr>;
          w = emit (CallReadFile file) (fst wt);
          song_on_disk = ReadFileBlocking env file song0
      in if d_valid song_on_disk
         then (w, snd (PreserveUserSetData img matching_song song_on_disk t1))
         else (w, t1))"

text \<open>\<^verbatim>\<open>ScanNewFile\<close> returns the songs, the updated \<^verbatim>\<open>cues_processed\<close> and the watcher
  with its calls on the cue parser and the tag reader recorded. The media-file check is
  called once for each section that points at the file.\<close>

definition ScanNewFile ::
  "Env \<Rightarrow> QString \<Rightarrow> QString \<Rightarrow> QString \<Rightarrow> QString set \<Rightarrow> CollectionWatcher
     \<Rightarrow> SongList \<times> QString set \<times> CollectionWatcher" where
  "ScanNewFile env file p matching_cue cues_processed w =
     (let matching_cue_mtime = GetMtimeForCue env matching_cue
      in if matching_cue_mtime \<noteq> 0 then
           (if matching_cue \<in> cues_processed then ([], cues_processed, w)
            else
              (let file_nfd = normalized_D env file;
                   pointing = filter (\<lambda>cue_song. normalized_D env (d_url cue_song) = file_nfd)
                                (cue_Load env matching_cue p);
                   w1 = emit (CallCueLoad matching_cue) w;
                   w2 = w1\<lparr> trace := trace w1 @ map (\<lambda>cue_song. CallIsMediaFile file) pointing \<rparr>;
                   song_list = filter (\<lambda>cue_song. IsMediaFileBlocking env file) pointing
               in (song_list,
                   if song_list \<noteq> [] then insert matching_cue cues_processed else cues_processed,
                   w2)))
         else
           (let song = ReadFileBlocking env file (Song_new (w_source w));
                w1 = emit (CallReadFile file) w
            in if d_valid song then ([song\<lparr> d_source := w_source w \<rparr>], cues_processed, w1)
               else ([], cues_processed, w1)))"

subsection \<open>One visit of a subdirectory\<close>

text \<open>The local variables of \<^verbatim>\<open>ScanSubdirectory\<close> that its loops share. The loop over
  \<^verbatim>\<open>files_on_disk\<close> removes entries from the list it walks, and its iterator then
  reaches array slots that are no longer part of the list; \<open>files_behind_end\<close> holds
  what those slots contain. The array of the list is \<open>files_on_disk\<close> followed by
  \<open>files_behind_end\<close>.\<close>

record locals =
  album_art :: "QString \<rightharpoonup> QString list"
  files_on_disk :: "QString list"
  files_behind_end :: "QString list"
  my_new_subdirs :: SubdirectoryList
  cues_processed :: "QString set"

definition locals_new :: locals where
  "locals_new = \<lparr> album_art = Map.empty, files_on_disk = [], files_behind_end = [],
                   my_new_subdirs = [],
                   cues_processed = {} \<rparr>"

text \<open>A visit ends in a state, or it runs out of the recursion budget of the model, or
  its iterator over \<^verbatim>\<open>files_on_disk\<close> is at a position outside the array of the list.
  The last does not happen in a visit: see \<open>scan_files_returns\<close> below.\<close>

datatype error = OutOfFuel | OutsideArray

text \<open>The body of the listing loop, for one entry of the directory.\<close>

definition list_child :: "Env \<Rightarrow> QString \<Rightarrow> locals \<times> ScanTransaction \<Rightarrow> locals \<times> ScanTransaction" where
  "list_child env child lt =
     (if isDir env child then
        (if \<not> isHidden env child then
           (let (seen, t) = HasSeenSubdir env child (snd lt)
            in if \<not> seen
               then ((fst lt)\<lparr> my_new_subdirs := my_new_subdirs (fst lt)
                       @ [\<lparr> directory_id = -1, path = child, mtime = lastModified env child \<rparr>] \<rparr>, t)
               else (fst lt, t))
         else lt)
      else
        (let ext_part = ExtensionPart env child;
             dir_part = DirectoryPart env child
         in if ext_part \<in> set sValidImages
            then ((fst lt)\<lparr> album_art := (album_art (fst lt))
                    (dir_part \<mapsto> (case album_art (fst lt) dir_part of None \<Rightarrow> [] | Some l \<Rightarrow> l) @ [child]) \<rparr>,
                  snd lt)
            else if \<not> isHidden env child
            then ((fst lt)\<lparr> files_on_disk := files_on_disk (fst lt) @ [child] \<rparr>, snd lt)
            else lt))"

text \<open>The listing loop. The flag of the result says that the stop request was seen and
  \<^verbatim>\<open>ScanSubdirectory\<close> returns.\<close>

fun list_directory ::
  "Env \<Rightarrow> bool \<Rightarrow> QString list \<Rightarrow> locals \<times> ScanTransaction \<Rightarrow> bool \<times> locals \<times> ScanTransaction" where
  "list_directory env stop [] lt = (False, lt)"
| "list_directory env stop (child # rest) lt =
     (if stop then (True, lt) else list_directory env stop rest (list_child env child lt))"

text \<open>The tests that \<^verbatim>\<open>ScanSubdirectory\<close> makes on a file whose song is stored:
  \<^verbatim>\<open>cue_deleted\<close>, \<^verbatim>\<open>cue_added\<close> and \<^verbatim>\<open>changed\<close>, the last one after the look at the
  album art.\<close>

definition cue_deleted :: "Env \<Rightarrow> Song \<Rightarrow> bool" where
  "cue_deleted env matching_song \<longleftrightarrow>
     GetMtimeForCue env (d_cue_path matching_song) = 0 \<and> has_cue matching_song"

definition cue_added :: "Env \<Rightarrow> QString \<Rightarrow> Song \<Rightarrow> bool" where
  "cue_added env matching_cue matching_song \<longleftrightarrow>
     GetMtimeForCue env matching_cue \<noteq> 0 \<and> \<not> has_cue matching_song"

definition changed :: "Env \<Rightarrow> QString \<Rightarrow> QString \<Rightarrow> Song \<Rightarrow> QUrl \<Rightarrow> bool" where
  "changed env file matching_cue matching_song img \<longleftrightarrow>
     (d_mtime matching_song
        \<noteq> max (lastModified env file) (GetMtimeForCue env (d_cue_path matching_song))
      \<or> cue_deleted env matching_song \<or> cue_added env matching_cue matching_song)
     \<or> (d_art_automatic matching_song = [] \<and> img \<noteq> [])
     \<or> (d_art_automatic matching_song \<noteq> [] \<and> \<not> has_embedded_cover matching_song
         \<and> \<not> file_exists env (d_art_automatic matching_song))"

text \<open>What the loop over a new file's songs does to each of them before it is queued.\<close>

definition queue_new_song :: "int \<Rightarrow> QUrl \<Rightarrow> Song \<Rightarrow> Song" where
  "queue_new_song dir img song0 =
     (let song = song0\<lparr> d_directory_id := dir \<rparr>
      in if d_art_automatic song = [] then song\<lparr> d_art_automatic := img \<rparr> else song)"

text \<open>\<^verbatim>\<open>files_on_disk.removeAll(file)\<close>. \<^verbatim>\<open>QList::removeAll\<close> moves the entries that stay
  towards the front of the array and lowers the end of the list; it writes to no slot
  behind the new end, so those slots keep the strings they held.\<close>

definition remove_file :: "QString \<Rightarrow> locals \<Rightarrow> locals" where
  "remove_file file l =
     (let kept = removeAll file (files_on_disk l)
      in l\<lparr> files_on_disk := kept,
            files_behind_end := drop (length kept) (files_on_disk l @ files_behind_end l) \<rparr>)"

text \<open>The body of the loop over \<^verbatim>\<open>files_on_disk\<close>, for the file the iterator points at.\<close>

definition scan_file ::
  "Env \<Rightarrow> QString \<Rightarrow> SongList \<Rightarrow> QString
     \<Rightarrow> locals \<times> CollectionWatcher \<times> ScanTransaction \<Rightarrow> locals \<times> CollectionWatcher \<times> ScanTransaction" where
  "scan_file env p songs_in_db file lwt =
     (let l = fst lwt; w = fst (snd lwt); t = snd (snd lwt);
          matching_cue = NoExtensionPart env file @ ''.cue''
      in case FindSongByPath songs_in_db file of
           Some matching_song \<Rightarrow>
             if \<not> file_exists env file
             then (remove_file file l, w, t)
             else
               (let (img, art) = ImageForSong env w file (album_art l);
                    wt1 = (if t_ignores_mtime t \<or> changed env file matching_cue matching_song img
                           then (if \<not> cue_deleted env matching_song
                                    \<and> (has_cue matching_song \<or> cue_added env matching_cue matching_song)
                                 then UpdateCueAssociatedSongs env file p matching_cue img (w, t)
                                 else UpdateNonCueAssociatedSong env file matching_song img
                                        (cue_deleted env matching_song) (w, t))
                           else (w, t));
                    t2 = (if d_unavailable matching_song
                          then (snd wt1)\<lparr> readded_songs := readded_songs (snd wt1) @ [matching_song] \<rparr>
                          else snd wt1)
                in (l\<lparr> album_art := art \<rparr>, fst wt1, t2))
         | None \<Rightarrow>
             (let (song_list, cues, w1) = ScanNewFile env file p matching_cue (cues_processed l) w;
                  l1 = l\<lparr> cues_processed := cues \<rparr>
              in if song_list = [] then (l1, w1, t)
                 else
                   (let (img, art) = ImageForSong env w1 file (album_art l1)
                    in (l1\<lparr> album_art := art \<rparr>, w1,
                        t\<lparr> new_songs := new_songs t
                             @ map (queue_new_song (t_dir t) img) song_list \<rparr>))))"

text \<open>
  The loop \<^verbatim>\<open>for (const QString &file : files_on_disk)\<close>. The range-for takes the
  begin and end iterators once: \<open>i\<close> is the position of the iterator in the array and
  \<open>n\<close> the number of positions left before the end that was taken at the start. When
  the body has shortened the list with \<^verbatim>\<open>removeAll\<close>, the iterator still moves on by
  one position and still runs up to the old end: the entry that moved into the current
  position is passed over, and the last positions are slots behind the new end of the
  list, which the loop reads as it reads the others.
\<close>

fun scan_files ::
  "Env \<Rightarrow> QString \<Rightarrow> SongList \<Rightarrow> nat \<Rightarrow> nat
     \<Rightarrow> locals \<times> CollectionWatcher \<times> ScanTransaction
     \<Rightarrow> error + bool \<times> locals \<times> CollectionWatcher \<times> ScanTransaction" where
  "scan_files env p songs_in_db 0 i lwt = Inr (False, lwt)"
| "scan_files env p songs_in_db (Suc n) i lwt =
     (if \<not> i < length (files_on_disk (fst lwt) @ files_behind_end (fst lwt)) then Inl OutsideArray
      else if w_stop_requested (fst (snd lwt)) then Inr (True, lwt)
      else scan_files env p songs_in_db n (Suc i)
             (scan_file env p songs_in_db ((files_on_disk (fst lwt) @ files_behind_end (fst lwt)) ! i) lwt))"

text \<open>The loop that looks for deleted songs.\<close>

definition look_for_deleted :: "SongList \<Rightarrow> QString list \<Rightarrow> ScanTransaction \<Rightarrow> ScanTransaction" where
  "look_for_deleted songs_in_db files t =
     t\<lparr> deleted_songs := deleted_songs t
          @ filter (\<lambda>song. \<not> d_unavailable song \<and> d_url song \<notin> set files) songs_in_db \<rparr>"

text \<open>The subdirectory's own record: new or touched, and deleted when its mtime is 0.\<close>

definition record_subdir :: "Env \<Rightarrow> QString \<Rightarrow> Subdirectory \<Rightarrow> ScanTransaction \<Rightarrow> ScanTransaction" where
  "record_subdir env p subdir t =
     (let updated_subdir = \<lparr> directory_id = t_dir t,
                             path = p,
                             mtime = (if file_exists env p then lastModified env p else 0) \<rparr>;
          t1 = (if directory_id subdir = -1
                then t\<lparr> new_subdirs := new_subdirs t @ [updated_subdir] \<rparr>
                else t\<lparr> touched_subdirs := touched_subdirs t @ [updated_subdir] \<rparr>)
      in if mtime updated_subdir = 0
         then t1\<lparr> deleted_subdirs := deleted_subdirs t1 @ [updated_subdir] \<rparr>
         else t1)"

text \<open>From the directory listing to the live-scanning commit: the part of
  \<^verbatim>\<open>ScanSubdirectory\<close> between its two recursions. The result carries the flag of an
  early return and the new subdirectories still to be visited.\<close>

definition scan_contents ::
  "Env \<Rightarrow> QString \<Rightarrow> Subdirectory \<Rightarrow> CollectionWatcher \<times> ScanTransaction
     \<Rightarrow> error + bool \<times> SubdirectoryList \<times> CollectionWatcher \<times> ScanTransaction" where
  "scan_contents env p subdir wt =
     (let w0 = emit (ListDirectory p) (fst wt);
          (stopped, l, t) = list_directory env (w_stop_requested w0) (dir_entries env p)
                              (locals_new, snd wt)
      in if stopped \<or> w_stop_requested w0 then Inr (True, [], w0, t)
         else
           (let (songs_in_db, t1) = FindSongsInSubdirectory env p t
            in case scan_files env p songs_in_db (length (files_on_disk l)) 0 (l, w0, t1) of
                 Inl e \<Rightarrow> Inl e
               | Inr (stopped2, l2, w2, t2) \<Rightarrow>
                   if stopped2 then Inr (True, [], w2, t2)
                   else
                     (let t3 = look_for_deleted songs_in_db (files_on_disk l2) t2;
                          t4 = record_subdir env p subdir t3;
                          wt5 = AddToProgress 1 (w2, t4);
                          wt6 = (if w_live_scanning (fst wt5) then CommitNewOrUpdatedSongs env wt5
                                 else wt5);
                          wt7 = AddToProgressMax (int (length (my_new_subdirs l2))) wt6
                      in Inr (False, my_new_subdirs l2, wt7))))"

text \<open>The two loops that recurse, over a function \<open>scan\<close> that visits one subdirectory.\<close>

fun scan_orphans ::
  "Env \<Rightarrow> (Subdirectory \<Rightarrow> CollectionWatcher \<times> ScanTransaction \<Rightarrow> error + CollectionWatcher \<times> ScanTransaction)
     \<Rightarrow> QString \<Rightarrow> SubdirectoryList \<Rightarrow> CollectionWatcher \<times> ScanTransaction
     \<Rightarrow> error + CollectionWatcher \<times> ScanTransaction" where
  "scan_orphans env scan p [] wt = Inr wt"
| "scan_orphans env scan p (prev_subdir # rest) wt =
     (if \<not> file_exists env (path prev_subdir) \<and> path prev_subdir \<noteq> p
      then (case scan prev_subdir (AddToProgressMax 1 wt) of
              Inl e \<Rightarrow> Inl e
            | Inr wt' \<Rightarrow> scan_orphans env scan p rest wt')
      else scan_orphans env scan p rest wt)"

fun scan_new_subdirs ::
  "(Subdirectory \<Rightarrow> CollectionWatcher \<times> ScanTransaction \<Rightarrow> error + CollectionWatcher \<times> ScanTransaction)
     \<Rightarrow> SubdirectoryList \<Rightarrow> CollectionWatcher \<times> ScanTransaction
     \<Rightarrow> error + CollectionWatcher \<times> ScanTransaction" where
  "scan_new_subdirs scan [] wt = Inr wt"
| "scan_new_subdirs scan (my_new_subdir # rest) wt =
     (if w_stop_requested (fst wt) then Inr wt
      else (case scan my_new_subdir wt of
              Inl e \<Rightarrow> Inl e
            | Inr wt' \<Rightarrow> scan_new_subdirs scan rest wt'))"

text \<open>The three tests at the head of \<^verbatim>\<open>ScanSubdirectory\<close>.\<close>

definition symlink_in_collection :: "Env \<Rightarrow> CollectionWatcher \<Rightarrow> QString \<Rightarrow> bool" where
  "symlink_in_collection env w p \<longleftrightarrow>
     isSymLink env p \<and>
     list_ex (\<lambda>dir. startsWith (symLinkTarget env p) (dir_path dir)) (map snd (w_watched_dirs w))"

definition has_marker_file :: "Env \<Rightarrow> QString \<Rightarrow> bool" where
  "has_marker_file env p \<longleftrightarrow> dir_has env p kNoMediaFile \<or> dir_has env p kNoMusicFile"

definition unchanged_since_last_scan ::
  "Env \<Rightarrow> QString \<Rightarrow> Subdirectory \<Rightarrow> bool \<Rightarrow> ScanTransaction \<Rightarrow> bool" where
  "unchanged_since_last_scan env p subdir force_noincremental t \<longleftrightarrow>
     \<not> t_ignores_mtime t \<and> \<not> force_noincremental \<and> t_incremental t
     \<and> mtime subdir = lastModified env p"

text \<open>\<^verbatim>\<open>ScanSubdirectory\<close>. The recursion of the source follows the directory tree on
  disk and the stored subdirectories and has no bound of its own, so the model counts
  the nesting of calls down from \<open>fuel\<close>.\<close>

fun ScanSubdirectory ::
  "nat \<Rightarrow> Env \<Rightarrow> QString \<Rightarrow> Subdirectory \<Rightarrow> bool \<Rightarrow> CollectionWatcher \<times> ScanTransaction
     \<Rightarrow> error + CollectionWatcher \<times> ScanTransaction" where
  "ScanSubdirectory 0 env p subdir force_noincremental wt = Inl OutOfFuel"
| "ScanSubdirectory (Suc fuel) env p subdir force_noincremental wt =
     (if symlink_in_collection env (fst wt) p then Inr (AddToProgress 1 wt)
      else if has_marker_file env p then Inr (AddToProgress 1 wt)
      else if unchanged_since_last_scan env p subdir force_noincremental (snd wt)
      then Inr (AddToProgress 1 wt)
      else
        (let (previous_subdirs, t) = GetImmediateSubdirs env p (snd wt)
         in case scan_orphans env (\<lambda>sd. ScanSubdirectory fuel env (path sd) sd True) p
                   previous_subdirs (fst wt, t) of
              Inl e \<Rightarrow> Inl e
            | Inr wt1 \<Rightarrow>
                (case scan_contents env p subdir wt1 of
                   Inl e \<Rightarrow> Inl e
                 | Inr (returned, new_subdirs_found, wt2) \<Rightarrow>
                     if returned then Inr wt2
                     else scan_new_subdirs (\<lambda>sd. ScanSubdirectory fuel env (path sd) sd True)
                            new_subdirs_found wt2)))"

section \<open>Vocabulary of the statements\<close>

text \<open>The batch signals of a commit in the order the specification gives them, one
  for each buffer that is not empty.\<close>

definition commit_signals :: "ScanTransaction \<Rightarrow> action list" where
  "commit_signals t =
     (if new_songs t \<noteq> [] then [NewOrUpdatedSongs (new_songs t)] else []) @
     (if touched_songs t \<noteq> [] then [SongsMTimeUpdated (touched_songs t)] else []) @
     (if deleted_songs t \<noteq> [] \<and> \<not> t_prevent_delete t then [SongsDeleted (deleted_songs t)] else []) @
     (if readded_songs t \<noteq> [] then [SongsReadded (readded_songs t)] else []) @
     (if new_subdirs t \<noteq> [] then [SubdirsDiscovered (new_subdirs t)] else []) @
     (if touched_subdirs t \<noteq> [] then [SubdirsMTimeUpdated (touched_subdirs t)] else [])"

text \<open>A list without the later occurrences of its elements.\<close>

function first_occurrences :: "'a list \<Rightarrow> 'a list" where
  "first_occurrences [] = []"
| "first_occurrences (x # xs) = x # first_occurrences (removeAll x xs)"
  by pat_completeness auto
termination
  by (relation "measure length") (auto simp: less_Suc_eq_le length_removeAll_less_eq)

text \<open>The watches a commit removes: with the directory of the transaction among the
  watched ones, one removal for each path of a deleted subdirectory that is mapped to
  that directory, in the order of the buffer and once for each path.\<close>

definition watch_removals :: "CollectionWatcher \<Rightarrow> ScanTransaction \<Rightarrow> action list" where
  "watch_removals w t =
     (case map_of (w_watched_dirs w) (t_dir t) of
        None \<Rightarrow> []
      | Some d \<Rightarrow> map RemovePath (first_occurrences
                     (filter (\<lambda>p. w_subdir_mapping w p = Some d) (map path (deleted_subdirs t)))))"

text \<open>The watches a commit adds: with monitoring on and the directory of the
  transaction among the watched ones, one addition for each new subdirectory whose
  path exists, in the order of the buffer.\<close>

definition watch_additions :: "Env \<Rightarrow> CollectionWatcher \<Rightarrow> ScanTransaction \<Rightarrow> action list" where
  "watch_additions env w t =
     (if w_monitor w
      then (case map_of (w_watched_dirs w) (t_dir t) of
              None \<Rightarrow> []
            | Some d \<Rightarrow> map AddPath (filter (file_exists env) (map path (new_subdirs t))))
      else [])"

text \<open>The table of watched paths after a commit: the added paths belong to the
  directory of the transaction, the removed ones to none, the others are as before.\<close>

definition watch_mapping ::
  "Env \<Rightarrow> CollectionWatcher \<Rightarrow> ScanTransaction \<Rightarrow> (QString \<rightharpoonup> Directory)" where
  "watch_mapping env w t =
     (case map_of (w_watched_dirs w) (t_dir t) of
        None \<Rightarrow> w_subdir_mapping w
      | Some d \<Rightarrow>
          (\<lambda>p. if w_monitor w \<and> p \<in> set (map path (new_subdirs t)) \<and> file_exists env p then Some d
               else if p \<in> set (map path (deleted_subdirs t)) \<and> w_subdir_mapping w p = Some d then None
               else w_subdir_mapping w p))"

text \<open>The substring test without regard to case, for strings of ASCII characters.\<close>

fun contains :: "QString \<Rightarrow> QString \<Rightarrow> bool" where
  "contains [] sub = (sub = [])"
| "contains (c # cs) sub = (startsWith (c # cs) sub \<or> contains cs sub)"

definition ascii_lower :: "char \<Rightarrow> char" where
  "ascii_lower c = (let n = (of_char c :: nat) in if 65 \<le> n \<and> n \<le> 90 then char_of (n + 32) else c)"

definition ascii_contains_insensitive :: "QString \<Rightarrow> QString \<Rightarrow> bool" where
  "ascii_contains_insensitive s sub = contains (map ascii_lower s) (map ascii_lower sub)"

definition is_ascii :: "QString \<Rightarrow> bool" where
  "is_ascii s \<longleftrightarrow> list_all (\<lambda>c. (of_char c :: nat) < 128) s"

text \<open>What is taken for granted of \<^verbatim>\<open>QString::contains\<close> with \<^verbatim>\<open>Qt::CaseInsensitive\<close>: on
  strings of ASCII characters it is the substring test after lowering the letters.\<close>

definition insensitive_on_ascii :: "Env \<Rightarrow> bool" where
  "insensitive_on_ascii env \<longleftrightarrow>
     (\<forall>s sub. is_ascii s \<and> is_ascii sub \<longrightarrow>
        contains_insensitive env s sub = ascii_contains_insensitive s sub)"

text \<open>The candidates whose file name contains the filter text, whatever the case.\<close>

definition matches :: "Env \<Rightarrow> QString \<Rightarrow> QString list \<Rightarrow> QString list" where
  "matches env filter_text images =
     filter (\<lambda>img. contains_insensitive env (fileName img) filter_text) images"

text \<open>The images among which the biggest is looked for: the matches of the first filter
  that matches any candidate, and all candidates when no filter matches one.\<close>

definition search_set :: "Env \<Rightarrow> QString list \<Rightarrow> QString list \<Rightarrow> QString list" where
  "search_set env filters images =
     (case find (\<lambda>filter_text. matches env filter_text images \<noteq> []) filters of
        None \<Rightarrow> images
      | Some filter_text \<Rightarrow> matches env filter_text images)"

text \<open>Width times height of an image that loads.\<close>

definition pixel_area :: "Env \<Rightarrow> QString \<Rightarrow> int option" where
  "pixel_area env p = (case QImage_size env p of None \<Rightarrow> None | Some (width, height) \<Rightarrow> Some (width * height))"

text \<open>Every area is within the range of \<^verbatim>\<open>int\<close>.\<close>

definition areas_fit :: "Env \<Rightarrow> QString list \<Rightarrow> bool" where
  "areas_fit env images \<longleftrightarrow> (\<forall>p \<in> set images. \<forall>a. pixel_area env p = Some a \<longrightarrow> 0 \<le> a \<and> a < 2 ^ 31)"

text \<open>Some image of the list loads with a positive area.\<close>

definition some_loads :: "Env \<Rightarrow> QString list \<Rightarrow> bool" where
  "some_loads env images \<longleftrightarrow> (\<exists>p \<in> set images. \<exists>a. pixel_area env p = Some a \<and> 0 < a)"

text \<open>\<open>r\<close> is the first image of the largest area in the list: it loads with a positive
  area, the images before it that load are smaller, and none after it is bigger.\<close>

definition first_largest :: "Env \<Rightarrow> QString list \<Rightarrow> QString \<Rightarrow> bool" where
  "first_largest env images r \<longleftrightarrow>
     (\<exists>before after a. images = before @ r # after \<and> pixel_area env r = Some a \<and> 0 < a \<and>
        (\<forall>p \<in> set before. \<forall>a'. pixel_area env p = Some a' \<longrightarrow> a' < a) \<and>
        (\<forall>p \<in> set after. \<forall>a'. pixel_area env p = Some a' \<longrightarrow> a' \<le> a))"

subsection \<open>Concrete worlds\<close>

text \<open>An empty filesystem with the string helpers of the header, a watcher that
  monitors the root \<open>/m\<close>, a fresh incremental transaction and a stored song.\<close>

definition env0 :: Env where
  "env0 = \<lparr> isSymLink = (\<lambda>p. False), symLinkTarget = (\<lambda>p. []),
            file_exists = (\<lambda>p. False), dir_has = (\<lambda>p name. False),
            lastModified = (\<lambda>p. 0), lastModified_isValid = (\<lambda>p. True),
            isDir = (\<lambda>p. False), isHidden = (\<lambda>p. False), dir_entries = (\<lambda>p. []),
            separator = CHR ''/'',
            ReadFileBlocking = (\<lambda>file song. song), IsMediaFileBlocking = (\<lambda>file. False),
            cue_Load = (\<lambda>cue base. []),
            FindSongsInDirectory = (\<lambda>dir. []), SubdirsInDirectory = (\<lambda>dir. []),
            GetSongsByUrl = (\<lambda>url. []),
            QImage_size = (\<lambda>p. None), normalized_D = (\<lambda>s. s),
            contains_insensitive = ascii_contains_insensitive,
            NoExtensionPart = (\<lambda>s. if CHR ''.'' \<in> set s
                                     then rev (tl (dropWhile (\<lambda>c. c \<noteq> CHR ''.'') (rev s))) else []),
            ExtensionPart = (\<lambda>s. if CHR ''.'' \<in> set s
                                   then map ascii_lower (rev (takeWhile (\<lambda>c. c \<noteq> CHR ''.'') (rev s))) else []),
            DirectoryPart = section_dir \<rparr>"

definition watcher0 :: CollectionWatcher where
  "watcher0 = \<lparr> w_source = Source_Collection, w_device_name = [], w_scan_on_startup = True,
                w_monitor = True, w_live_scanning = False, w_prevent_delete = False,
                w_stop_requested = False,
                w_watched_dirs = [(1, \<lparr> dir_path = ''/m'', dir_id = 1 \<rparr>)],
                w_subdir_mapping = Map.empty,
                w_best_image_filters = [''front'', ''cover''], trace = [] \<rparr>"

definition transaction0 :: ScanTransaction where
  "transaction0 = \<lparr> t_progress = 0, t_progress_max = 0, t_dir = 1,
                t_incremental = True, t_ignores_mtime = False,
                t_prevent_delete = False, t_task_id = 7,
                t_cached_songs = [], t_cached_songs_dirty = True,
                t_known_subdirs = [], t_known_subdirs_dirty = True,
                new_songs = [], touched_songs = [], deleted_songs = [],
                readded_songs = [], new_subdirs = [], touched_subdirs = [],
                deleted_subdirs = [] \<rparr>"

definition song0 :: Song where
  "song0 = (Song_new Source_Collection)\<lparr> d_valid := True, d_id := 5, d_url := ''/m/a.flac'',
              d_mtime := 100, d_directory_id := 1 \<rparr>"

text \<open>A watcher that watches \<open>/m/old\<close>, and a transaction that has found it deleted and
  \<open>/m/new\<close> new.\<close>

definition env_watches :: Env where
  "env_watches = env0\<lparr> file_exists := (\<lambda>p. p \<in> {''/m'', ''/m/new''}) \<rparr>"

definition watcher_watching :: CollectionWatcher where
  "watcher_watching =
     watcher0\<lparr> w_subdir_mapping := [''/m/old'' \<mapsto> \<lparr> dir_path = ''/m'', dir_id = 1 \<rparr>] \<rparr>"

definition transaction_subdirs :: ScanTransaction where
  "transaction_subdirs =
     transaction0\<lparr> new_songs := [song0], deleted_songs := [song0], readded_songs := [song0],
                   new_subdirs := [\<lparr> directory_id = 1, path = ''/m/new'', mtime = 5 \<rparr>],
                   deleted_subdirs := [\<lparr> directory_id = 1, path = ''/m/old'', mtime = 0 \<rparr>] \<rparr>"

text \<open>The transactions of a full scan and of a rescan of one path.\<close>

definition full_transaction :: ScanTransaction where
  "full_transaction = transaction0\<lparr> t_incremental := False, t_ignores_mtime := True \<rparr>"

definition rescan_transaction :: ScanTransaction where
  "rescan_transaction = transaction0\<lparr> t_incremental := False \<rparr>"

text \<open>A directory with \<open>/m/a.cue\<close>, \<open>/m/a.flac\<close> and \<open>/m/a.mp3\<close>; the cue sheet has a
  section for each of the two media files.\<close>

definition cue_section :: "QString \<Rightarrow> int \<Rightarrow> Song" where
  "cue_section file b = (Song_new Source_Unknown)\<lparr> d_valid := True, d_url := file, d_beginning := b,
      d_cue_path := ''/m/a.cue'' \<rparr>"

definition env_cue :: Env where
  "env_cue = env0\<lparr> file_exists := (\<lambda>p. p \<in> {''/m'', ''/m/a.flac'', ''/m/a.mp3'', ''/m/a.cue''}),
                  lastModified := (\<lambda>p. 50),
                  dir_entries := (\<lambda>p. if p = ''/m'' then [''/m/a.cue'', ''/m/a.flac'', ''/m/a.mp3''] else []),
                  IsMediaFileBlocking := (\<lambda>file. True),
                  cue_Load := (\<lambda>cue base. if cue = ''/m/a.cue''
                                 then [cue_section ''/m/a.flac'' 0, cue_section ''/m/a.mp3'' 0] else []) \<rparr>"

text \<open>Two stored sections of \<open>/m/a.flac\<close> whose cue sheet is gone; the file unreadable
  and readable.\<close>

definition stored_section :: "int \<Rightarrow> int \<Rightarrow> Song" where
  "stored_section i b = (Song_new Source_Collection)\<lparr> d_valid := True, d_id := i,
      d_url := ''/m/a.flac'', d_beginning := b, d_directory_id := 1, d_mtime := 50,
      d_cue_path := ''/m/a.cue'' \<rparr>"

definition env_cue_removed :: Env where
  "env_cue_removed = env0\<lparr> file_exists := (\<lambda>p. p \<in> {''/m'', ''/m/a.flac''}),
       lastModified := (\<lambda>p. 50),
       dir_entries := (\<lambda>p. if p = ''/m'' then [''/m/a.flac''] else []),
       FindSongsInDirectory := (\<lambda>dir. [stored_section 5 0, stored_section 6 100]),
       GetSongsByUrl := (\<lambda>url. [stored_section 5 0, stored_section 6 100]) \<rparr>"

definition env_cue_removed_readable :: Env where
  "env_cue_removed_readable =
     env_cue_removed\<lparr> ReadFileBlocking := (\<lambda>file song. song\<lparr> d_valid := True, d_url := file \<rparr>) \<rparr>"



text \<open>Two images, both loading; and a directory whose \<open>cover.jpg\<close> does not load.\<close>

definition env_art_ok :: Env where
  "env_art_ok = env0\<lparr> QImage_size := (\<lambda>p. if p = ''/m/folder.jpg'' then Some (500, 500)
                                         else if p = ''/m/cover.jpg'' then Some (300, 300) else None) \<rparr>"

definition env_art_dir :: Env where
  "env_art_dir = env0\<lparr> file_exists := (\<lambda>p. p \<in> {''/m'', ''/m/a.flac'', ''/m/cover.jpg'', ''/m/folder.jpg''}),
       lastModified := (\<lambda>p. 100),
       dir_entries := (\<lambda>p. if p = ''/m'' then [''/m/a.flac'', ''/m/cover.jpg'', ''/m/folder.jpg''] else []),
       ReadFileBlocking := (\<lambda>file song. song\<lparr> d_valid := True, d_url := file \<rparr>),
       QImage_size := (\<lambda>p. if p = ''/m/folder.jpg'' then Some (500, 500) else None) \<rparr>"

section \<open>Properties of the scan transaction\<close>

lemma emit_simps [simp]:
  "trace (emit a w) = trace w @ [a]"
  "w_monitor (emit a w) = w_monitor w"
  "w_watched_dirs (emit a w) = w_watched_dirs w"
  "w_stop_requested (emit a w) = w_stop_requested w"
  "w_subdir_mapping (emit a w) = w_subdir_mapping w"
  by (simp_all add: emit_def)

lemma RemoveWatch_frame [simp]:
  "w_monitor (RemoveWatch d sd w) = w_monitor w"
  "w_watched_dirs (RemoveWatch d sd w) = w_watched_dirs w"
  "w_stop_requested (RemoveWatch d sd w) = w_stop_requested w"
  by (simp_all add: RemoveWatch_def)

lemma AddWatch_frame [simp]:
  "w_monitor (AddWatch env d p w) = w_monitor w"
  "w_watched_dirs (AddWatch env d p w) = w_watched_dirs w"
  "w_stop_requested (AddWatch env d p w) = w_stop_requested w"
  by (simp_all add: AddWatch_def)

lemma remove_deleted_watches_frame [simp]:
  "w_monitor (remove_deleted_watches dir sds w) = w_monitor w"
  "w_watched_dirs (remove_deleted_watches dir sds w) = w_watched_dirs w"
  "w_stop_requested (remove_deleted_watches dir sds w) = w_stop_requested w"
  unfolding remove_deleted_watches_def
  by (induction sds arbitrary: w; simp split: option.splits)+

lemma add_new_watches_frame [simp]:
  "w_monitor (add_new_watches env dir sds w) = w_monitor w"
  "w_watched_dirs (add_new_watches env dir sds w) = w_watched_dirs w"
  "w_stop_requested (add_new_watches env dir sds w) = w_stop_requested w"
  unfolding add_new_watches_def
  by (induction sds arbitrary: w; simp split: option.splits)+

lemma filter_mapped_upd:
  "filter (\<lambda>q. (m(p := None)) q = Some d) xs = removeAll p (filter (\<lambda>q. m q = Some d) xs)"
  by (induction xs) auto

lemma remove_deleted_watches_exact:
  "map_of (w_watched_dirs w) dir = Some d \<Longrightarrow>
   trace (remove_deleted_watches dir sds w) =
     trace w @ map RemovePath (first_occurrences
                 (filter (\<lambda>p. w_subdir_mapping w p = Some d) (map path sds))) \<and>
   w_subdir_mapping (remove_deleted_watches dir sds w) =
     (\<lambda>p. if p \<in> set (map path sds) \<and> w_subdir_mapping w p = Some d then None
          else w_subdir_mapping w p)"
proof (induction sds arbitrary: w)
  case Nil
  show ?case by (simp add: remove_deleted_watches_def)
next
  case (Cons sd sds)
  define w1 where "w1 = RemoveWatch d sd w"
  have step: "remove_deleted_watches dir (sd # sds) w = remove_deleted_watches dir sds w1"
    using Cons.prems by (simp add: remove_deleted_watches_def w1_def)
  have wd: "map_of (w_watched_dirs w1) dir = Some d"
    using Cons.prems by (simp add: w1_def)
  note IH = Cons.IH [OF wd]
  show ?case
  proof (cases "w_subdir_mapping w (path sd) = Some d")
    case True
    then have t1: "trace w1 = trace w @ [RemovePath (path sd)]"
      and m1: "w_subdir_mapping w1 = (w_subdir_mapping w)(path sd := None)"
      by (simp_all add: w1_def RemoveWatch_def)
    have f: "filter (\<lambda>q. w_subdir_mapping w1 q = Some d) (map path sds) =
             removeAll (path sd) (filter (\<lambda>q. w_subdir_mapping w q = Some d) (map path sds))"
      unfolding m1 by (rule filter_mapped_upd)
    have tr: "trace (remove_deleted_watches dir sds w1) =
                trace w @ map RemovePath (first_occurrences
                  (filter (\<lambda>p. w_subdir_mapping w p = Some d) (map path (sd # sds))))"
      using IH [THEN conjunct1] True unfolding f t1 by simp
    have mp: "w_subdir_mapping (remove_deleted_watches dir sds w1) =
                (\<lambda>p. if p \<in> set (map path (sd # sds)) \<and> w_subdir_mapping w p = Some d then None
                     else w_subdir_mapping w p)"
      using IH [THEN conjunct2] True unfolding m1 by (auto simp: fun_eq_iff)
    show ?thesis unfolding step using tr mp by blast
  next
    case False
    then have "w1 = w" by (simp add: w1_def RemoveWatch_def)
    with IH False show ?thesis
      unfolding step by (auto simp: fun_eq_iff)
  qed
qed

lemma add_new_watches_exact:
  "map_of (w_watched_dirs w) dir = Some d \<Longrightarrow>
   trace (add_new_watches env dir sds w) =
     trace w @ map AddPath (filter (file_exists env) (map path sds)) \<and>
   w_subdir_mapping (add_new_watches env dir sds w) =
     (\<lambda>p. if p \<in> set (map path sds) \<and> file_exists env p then Some d else w_subdir_mapping w p)"
proof (induction sds arbitrary: w)
  case Nil
  show ?case by (simp add: add_new_watches_def)
next
  case (Cons sd sds)
  define w1 where "w1 = AddWatch env d (path sd) w"
  have step: "add_new_watches env dir (sd # sds) w = add_new_watches env dir sds w1"
    using Cons.prems by (simp add: add_new_watches_def w1_def)
  have wd: "map_of (w_watched_dirs w1) dir = Some d"
    using Cons.prems by (simp add: w1_def)
  note IH = Cons.IH [OF wd]
  show ?case
  proof (cases "file_exists env (path sd)")
    case True
    then have t1: "trace w1 = trace w @ [AddPath (path sd)]"
      and m1: "w_subdir_mapping w1 = (w_subdir_mapping w)(path sd \<mapsto> d)"
      by (simp_all add: w1_def AddWatch_def)
    show ?thesis
      unfolding step using IH True by (auto simp: t1 m1 fun_eq_iff)
  next
    case False
    then have "w1 = w" by (simp add: w1_def AddWatch_def)
    with IH False show ?thesis
      unfolding step by (auto simp: fun_eq_iff)
  qed
qed

lemma watches_unwatched:
  "map_of (w_watched_dirs w) dir = None \<Longrightarrow>
   remove_deleted_watches dir sds w = w \<and> add_new_watches env dir sds w = w"
  unfolding remove_deleted_watches_def add_new_watches_def
  by (induction sds) simp_all

lemma commit_steps_snd:
  "snd (commit_new_songs wt) = (snd wt)\<lparr> new_songs := [] \<rparr>"
  "snd (commit_touched_songs wt) = (snd wt)\<lparr> touched_songs := [] \<rparr>"
  "snd (commit_deleted_songs wt) =
     (snd wt)\<lparr> deleted_songs := (if t_prevent_delete (snd wt) then deleted_songs (snd wt) else []) \<rparr>"
  "snd (commit_readded_songs wt) = (snd wt)\<lparr> readded_songs := [] \<rparr>"
  "snd (commit_new_subdirs wt) = snd wt"
  "snd (commit_touched_subdirs wt) = (snd wt)\<lparr> touched_subdirs := [] \<rparr>"
  "snd (commit_watches env wt) = (snd wt)\<lparr> deleted_subdirs := [], new_subdirs := [] \<rparr>"
  by (simp_all add: commit_new_songs_def commit_touched_songs_def commit_deleted_songs_def
        commit_readded_songs_def commit_new_subdirs_def commit_touched_subdirs_def
        commit_watches_def Let_def)

lemma Commit_buffers:
  "snd (CommitNewOrUpdatedSongs env wt) =
     (snd wt)\<lparr> new_songs := [], touched_songs := [],
        deleted_songs := (if t_prevent_delete (snd wt) then deleted_songs (snd wt) else []),
        readded_songs := [], touched_subdirs := [], deleted_subdirs := [], new_subdirs := [] \<rparr>"
  by (simp add: CommitNewOrUpdatedSongs_def commit_steps_snd)

lemma commit_steps_trace:
  "trace (fst (commit_new_songs wt)) = trace (fst wt) @
     (if new_songs (snd wt) \<noteq> [] then [NewOrUpdatedSongs (new_songs (snd wt))] else [])"
  "trace (fst (commit_touched_songs wt)) = trace (fst wt) @
     (if touched_songs (snd wt) \<noteq> [] then [SongsMTimeUpdated (touched_songs (snd wt))] else [])"
  "trace (fst (commit_deleted_songs wt)) = trace (fst wt) @
     (if deleted_songs (snd wt) \<noteq> [] \<and> \<not> t_prevent_delete (snd wt)
      then [SongsDeleted (deleted_songs (snd wt))] else [])"
  "trace (fst (commit_readded_songs wt)) = trace (fst wt) @
     (if readded_songs (snd wt) \<noteq> [] then [SongsReadded (readded_songs (snd wt))] else [])"
  "trace (fst (commit_new_subdirs wt)) = trace (fst wt) @
     (if new_subdirs (snd wt) \<noteq> [] then [SubdirsDiscovered (new_subdirs (snd wt))] else [])"
  "trace (fst (commit_touched_subdirs wt)) = trace (fst wt) @
     (if touched_subdirs (snd wt) \<noteq> [] then [SubdirsMTimeUpdated (touched_subdirs (snd wt))] else [])"
  by (simp_all add: commit_new_songs_def commit_touched_songs_def commit_deleted_songs_def
        commit_readded_songs_def commit_new_subdirs_def commit_touched_subdirs_def)

lemma commit_steps_monitor:
  "w_monitor (fst (commit_new_songs wt)) = w_monitor (fst wt)"
  "w_monitor (fst (commit_touched_songs wt)) = w_monitor (fst wt)"
  "w_monitor (fst (commit_deleted_songs wt)) = w_monitor (fst wt)"
  "w_monitor (fst (commit_readded_songs wt)) = w_monitor (fst wt)"
  "w_monitor (fst (commit_new_subdirs wt)) = w_monitor (fst wt)"
  "w_monitor (fst (commit_touched_subdirs wt)) = w_monitor (fst wt)"
  by (simp_all add: commit_new_songs_def commit_touched_songs_def commit_deleted_songs_def
        commit_readded_songs_def commit_new_subdirs_def commit_touched_subdirs_def)

lemma commit_signals_trace:
  "trace (fst (commit_touched_subdirs (commit_new_subdirs (commit_readded_songs
      (commit_deleted_songs (commit_touched_songs (commit_new_songs wt))))))) =
   trace (fst wt) @ commit_signals (snd wt)"
  by (simp add: commit_steps_trace commit_steps_snd commit_signals_def split del: if_split cong: if_cong)

lemma commit_steps_mapping:
  "w_subdir_mapping (fst (commit_new_songs wt)) = w_subdir_mapping (fst wt)"
  "w_subdir_mapping (fst (commit_touched_songs wt)) = w_subdir_mapping (fst wt)"
  "w_subdir_mapping (fst (commit_deleted_songs wt)) = w_subdir_mapping (fst wt)"
  "w_subdir_mapping (fst (commit_readded_songs wt)) = w_subdir_mapping (fst wt)"
  "w_subdir_mapping (fst (commit_new_subdirs wt)) = w_subdir_mapping (fst wt)"
  "w_subdir_mapping (fst (commit_touched_subdirs wt)) = w_subdir_mapping (fst wt)"
  "w_watched_dirs (fst (commit_new_songs wt)) = w_watched_dirs (fst wt)"
  "w_watched_dirs (fst (commit_touched_songs wt)) = w_watched_dirs (fst wt)"
  "w_watched_dirs (fst (commit_deleted_songs wt)) = w_watched_dirs (fst wt)"
  "w_watched_dirs (fst (commit_readded_songs wt)) = w_watched_dirs (fst wt)"
  "w_watched_dirs (fst (commit_new_subdirs wt)) = w_watched_dirs (fst wt)"
  "w_watched_dirs (fst (commit_touched_subdirs wt)) = w_watched_dirs (fst wt)"
  by (simp_all add: commit_new_songs_def commit_touched_songs_def commit_deleted_songs_def
        commit_readded_songs_def commit_new_subdirs_def commit_touched_subdirs_def)

lemma commit_watches_exact:
  "trace (fst (commit_watches env wt)) =
     trace (fst wt) @ watch_removals (fst wt) (snd wt) @ watch_additions env (fst wt) (snd wt) \<and>
   w_subdir_mapping (fst (commit_watches env wt)) = watch_mapping env (fst wt) (snd wt)"
proof (cases "map_of (w_watched_dirs (fst wt)) (t_dir (snd wt))")
  case None
  then show ?thesis
    by (simp add: commit_watches_def Let_def watches_unwatched watch_removals_def
          watch_additions_def watch_mapping_def)
next
  case (Some d)
  define w1 where "w1 = remove_deleted_watches (t_dir (snd wt)) (deleted_subdirs (snd wt)) (fst wt)"
  have wd1: "map_of (w_watched_dirs w1) (t_dir (snd wt)) = Some d"
    using Some by (simp add: w1_def)
  have mon: "w_monitor w1 = w_monitor (fst wt)" by (simp add: w1_def)
  note R = remove_deleted_watches_exact [OF Some, of "deleted_subdirs (snd wt)", folded w1_def]
  note A = add_new_watches_exact [OF wd1, of env "new_subdirs (snd wt)"]
  show ?thesis
  proof (cases "w_monitor (fst wt)")
    case True
    then show ?thesis
      using Some R A mon
      by (auto simp: commit_watches_def Let_def w1_def [symmetric] watch_removals_def
            watch_additions_def watch_mapping_def fun_eq_iff)
  next
    case False
    then show ?thesis
      using Some R mon
      by (auto simp: commit_watches_def Let_def w1_def [symmetric] watch_removals_def
            watch_additions_def watch_mapping_def fun_eq_iff)
  qed
qed

lemma Commit_trace:
  "trace (fst (CommitNewOrUpdatedSongs env wt)) =
     trace (fst wt) @ commit_signals (snd wt) @ watch_removals (fst wt) (snd wt)
       @ watch_additions env (fst wt) (snd wt) \<and>
   w_subdir_mapping (fst (CommitNewOrUpdatedSongs env wt)) = watch_mapping env (fst wt) (snd wt)"
proof -
  define wt6 where "wt6 = commit_touched_subdirs (commit_new_subdirs (commit_readded_songs
      (commit_deleted_songs (commit_touched_songs (commit_new_songs wt)))))"
  have tr: "trace (fst wt6) = trace (fst wt) @ commit_signals (snd wt)"
    unfolding wt6_def by (rule commit_signals_trace)
  have same: "deleted_subdirs (snd wt6) = deleted_subdirs (snd wt)"
             "new_subdirs (snd wt6) = new_subdirs (snd wt)"
             "t_dir (snd wt6) = t_dir (snd wt)"
             "w_monitor (fst wt6) = w_monitor (fst wt)"
             "w_subdir_mapping (fst wt6) = w_subdir_mapping (fst wt)"
             "w_watched_dirs (fst wt6) = w_watched_dirs (fst wt)"
    unfolding wt6_def by (simp_all add: commit_steps_snd commit_steps_monitor commit_steps_mapping)
  have eqs: "watch_removals (fst wt6) (snd wt6) = watch_removals (fst wt) (snd wt)"
    "watch_additions env (fst wt6) (snd wt6) = watch_additions env (fst wt) (snd wt)"
    "watch_mapping env (fst wt6) (snd wt6) = watch_mapping env (fst wt) (snd wt)"
    unfolding watch_removals_def watch_additions_def watch_mapping_def same by (rule refl)+
  have C: "CommitNewOrUpdatedSongs env wt = commit_watches env wt6"
    by (simp add: CommitNewOrUpdatedSongs_def wt6_def)
  from commit_watches_exact [of env wt6] show ?thesis
    unfolding C tr eqs by simp
qed

text \<open>
  Claim C1. If the stop flag is set when a transaction ends, the destructor does not
  commit: the watcher afterwards is the watcher before with the single action
  \<open>SetTaskFinished\<close> added, so none of the six batch signals is emitted and no watch
  changes; the buffers go with the transaction object. Stopped or not, the last action
  of the destructor marks the transaction's task finished.
\<close>

theorem transaction_end_when_stopped:
  "(w_stop_requested w \<longrightarrow>
      ScanTransaction_destroy env (w, t) = emit (SetTaskFinished (t_task_id t)) w \<and>
      trace (ScanTransaction_destroy env (w, t)) = trace w @ [SetTaskFinished (t_task_id t)]) \<and>
   (\<exists>before. trace (ScanTransaction_destroy env (w, t)) = before @ [SetTaskFinished (t_task_id t)])"
  by (simp add: ScanTransaction_destroy_def Let_def Commit_buffers)

text \<open>C1 at a stopped watcher whose transaction holds a new song.\<close>

theorem transaction_end_when_stopped_witness:
  "ScanTransaction_destroy env0
      (watcher0\<lparr> w_stop_requested := True \<rparr>, transaction0\<lparr> new_songs := [song0] \<rparr>) =
     emit (SetTaskFinished 7) (watcher0\<lparr> w_stop_requested := True \<rparr>)"
  using transaction_end_when_stopped
          [of "watcher0\<lparr> w_stop_requested := True \<rparr>" env0 "transaction0\<lparr> new_songs := [song0] \<rparr>"]
  by (simp add: transaction0_def)

text \<open>
  Claim C6. A transaction that ends with the stop flag unset emits, in this order: the
  new songs, the touched songs, the deleted songs (unless deletion is prevented), the
  readded songs, the new subdirectories, the touched subdirectories, each only when its
  buffer is not empty; then it removes the watch of every deleted subdirectory that is
  watched for the directory of the transaction; then, and only with monitoring on, it
  adds a watch for every new subdirectory whose path exists; and last it ends the task.
  The table of watched paths afterwards has the added paths and lacks the removed ones.
\<close>

theorem commit_order:
  "\<not> w_stop_requested w \<Longrightarrow>
   trace (ScanTransaction_destroy env (w, t)) =
     trace w @ commit_signals t @ watch_removals w t @ watch_additions env w t
       @ [SetTaskFinished (t_task_id t)] \<and>
   w_subdir_mapping (ScanTransaction_destroy env (w, t)) = watch_mapping env w t"
  using Commit_trace [of env "(w, t)"]
  by (simp add: ScanTransaction_destroy_def Let_def Commit_buffers)

text \<open>C6 at a transaction with new, deleted and readded songs, a deleted subdirectory
  that is watched and a new one that exists.\<close>

theorem commit_order_witness:
  "trace (ScanTransaction_destroy env_watches (watcher_watching, transaction_subdirs)) =
     [NewOrUpdatedSongs [song0], SongsDeleted [song0], SongsReadded [song0],
      SubdirsDiscovered [\<lparr> directory_id = 1, path = ''/m/new'', mtime = 5 \<rparr>],
      RemovePath ''/m/old'', AddPath ''/m/new'', SetTaskFinished 7] \<and>
   w_subdir_mapping (ScanTransaction_destroy env_watches (watcher_watching, transaction_subdirs))
      ''/m/old'' = None \<and>
   w_subdir_mapping (ScanTransaction_destroy env_watches (watcher_watching, transaction_subdirs))
      ''/m/new'' = Some \<lparr> dir_path = ''/m'', dir_id = 1 \<rparr>"
  using commit_order [of watcher_watching env_watches transaction_subdirs]
  by (simp add: watcher_watching_def env_watches_def transaction_subdirs_def watcher0_def
        transaction0_def env0_def commit_signals_def watch_removals_def watch_additions_def
        watch_mapping_def)

text \<open>
  Claim C10. After \<^verbatim>\<open>CommitNewOrUpdatedSongs\<close> the buffers of new, touched and readded
  songs and of new, touched and deleted subdirectories are empty. The buffer of deleted
  songs is empty when deletion is not prevented; when it is prevented the buffer is what
  it was and the commit has emitted no \<open>SongsDeleted\<close>.
\<close>

theorem commit_clears_buffers:
  "new_songs (snd (CommitNewOrUpdatedSongs env (w, t))) = [] \<and>
   touched_songs (snd (CommitNewOrUpdatedSongs env (w, t))) = [] \<and>
   readded_songs (snd (CommitNewOrUpdatedSongs env (w, t))) = [] \<and>
   new_subdirs (snd (CommitNewOrUpdatedSongs env (w, t))) = [] \<and>
   touched_subdirs (snd (CommitNewOrUpdatedSongs env (w, t))) = [] \<and>
   deleted_subdirs (snd (CommitNewOrUpdatedSongs env (w, t))) = [] \<and>
   (\<not> t_prevent_delete t \<longrightarrow> deleted_songs (snd (CommitNewOrUpdatedSongs env (w, t))) = []) \<and>
   (t_prevent_delete t \<longrightarrow>
      deleted_songs (snd (CommitNewOrUpdatedSongs env (w, t))) = deleted_songs t \<and>
      (\<forall>songs. SongsDeleted songs \<notin>
         set (drop (length (trace w)) (trace (fst (CommitNewOrUpdatedSongs env (w, t)))))))"
proof -
  have bufs: "new_songs (snd (CommitNewOrUpdatedSongs env (w, t))) = []"
    "touched_songs (snd (CommitNewOrUpdatedSongs env (w, t))) = []"
    "readded_songs (snd (CommitNewOrUpdatedSongs env (w, t))) = []"
    "new_subdirs (snd (CommitNewOrUpdatedSongs env (w, t))) = []"
    "touched_subdirs (snd (CommitNewOrUpdatedSongs env (w, t))) = []"
    "deleted_subdirs (snd (CommitNewOrUpdatedSongs env (w, t))) = []"
    "deleted_songs (snd (CommitNewOrUpdatedSongs env (w, t))) =
       (if t_prevent_delete t then deleted_songs t else [])"
    by (simp_all add: Commit_buffers)
  have quiet: "SongsDeleted songs \<notin>
         set (drop (length (trace w)) (trace (fst (CommitNewOrUpdatedSongs env (w, t)))))"
    if pd: "t_prevent_delete t" for songs
  proof -
    have 1: "SongsDeleted songs \<notin> set (commit_signals t)"
      using pd by (simp add: commit_signals_def)
    have 2: "SongsDeleted songs \<notin> set (watch_removals w t)"
      by (cases "map_of (w_watched_dirs w) (t_dir t)") (auto simp: watch_removals_def)
    have 3: "SongsDeleted songs \<notin> set (watch_additions env w t)"
      by (cases "w_monitor w"; cases "map_of (w_watched_dirs w) (t_dir t)")
         (auto simp: watch_additions_def)
    have "trace (fst (CommitNewOrUpdatedSongs env (w, t))) =
            trace w @ commit_signals t @ watch_removals w t @ watch_additions env w t"
      using Commit_trace [of env "(w, t)", THEN conjunct1] by simp
    then show ?thesis using 1 2 3 by simp
  qed
  show ?thesis using bufs quiet by simp
qed

text \<open>C10 at a transaction that prevents deletion and holds a deleted song.\<close>

theorem commit_clears_buffers_witness:
  "deleted_songs (snd (CommitNewOrUpdatedSongs env0
      (watcher0, transaction0\<lparr> t_prevent_delete := True, deleted_songs := [song0] \<rparr>))) = [song0] \<and>
   SongsDeleted [song0] \<notin> set (trace (fst (CommitNewOrUpdatedSongs env0
      (watcher0, transaction0\<lparr> t_prevent_delete := True, deleted_songs := [song0] \<rparr>)))) \<and>
   deleted_songs (snd (CommitNewOrUpdatedSongs env0
      (watcher0, transaction0\<lparr> deleted_songs := [song0] \<rparr>))) = []"
  using commit_clears_buffers [of env0 watcher0
          "transaction0\<lparr> t_prevent_delete := True, deleted_songs := [song0] \<rparr>"]
        commit_clears_buffers [of env0 watcher0 "transaction0\<lparr> deleted_songs := [song0] \<rparr>"]
  by (simp add: watcher0_def transaction0_def)

text \<open>
  Claim C7. \<^verbatim>\<open>HasSeenSubdir\<close> answers from the list of known subdirectories, fetched
  from the backend on first use and kept: it is true exactly when the list has an entry
  with this path and a nonzero mtime. When every entry with this path has mtime 0 the
  answer is false, and the listing loop then queues a visible directory of this path
  as a new subdirectory.
\<close>

theorem HasSeenSubdir_iff:
  "(fst (HasSeenSubdir env p t) \<longleftrightarrow>
      (\<exists>subdir \<in> set (if t_known_subdirs_dirty t then SubdirsInDirectory env (t_dir t)
                         else t_known_subdirs t).
         path subdir = p \<and> mtime subdir \<noteq> 0)) \<and>
   t_known_subdirs (snd (HasSeenSubdir env p t)) =
      (if t_known_subdirs_dirty t then SubdirsInDirectory env (t_dir t) else t_known_subdirs t) \<and>
   \<not> t_known_subdirs_dirty (snd (HasSeenSubdir env p t)) \<and>
   ((\<forall>subdir \<in> set (if t_known_subdirs_dirty t then SubdirsInDirectory env (t_dir t)
                         else t_known_subdirs t).
        path subdir = p \<longrightarrow> mtime subdir = 0) \<longrightarrow>
    \<not> fst (HasSeenSubdir env p t) \<and>
    (isDir env p \<and> \<not> isHidden env p \<longrightarrow>
       my_new_subdirs (fst (list_child env p (l, t))) =
         my_new_subdirs l @ [\<lparr> directory_id = -1, path = p, mtime = lastModified env p \<rparr>]))"
  by (auto simp: HasSeenSubdir_def fetch_known_subdirs_def SetKnownSubdirs_def Let_def
        list_ex_iff list_child_def split_def)

text \<open>C7 at a subdirectory stored with mtime 0 and found on disk again.\<close>

theorem HasSeenSubdir_iff_witness:
  "\<not> fst (HasSeenSubdir (env0\<lparr> isDir := (\<lambda>p. p = ''/m/x'') \<rparr>) ''/m/x''
           (transaction0\<lparr> t_known_subdirs := [\<lparr> directory_id = 1, path = ''/m/x'', mtime = 0 \<rparr>],
                          t_known_subdirs_dirty := False \<rparr>)) \<and>
   my_new_subdirs (fst (list_child (env0\<lparr> isDir := (\<lambda>p. p = ''/m/x'') \<rparr>) ''/m/x''
        (locals_new, transaction0\<lparr> t_known_subdirs := [\<lparr> directory_id = 1, path = ''/m/x'', mtime = 0 \<rparr>],
                          t_known_subdirs_dirty := False \<rparr>))) =
     [\<lparr> directory_id = -1, path = ''/m/x'', mtime = 0 \<rparr>]"
  using HasSeenSubdir_iff [of "env0\<lparr> isDir := (\<lambda>p. p = ''/m/x'') \<rparr>" "''/m/x''"
          "transaction0\<lparr> t_known_subdirs := [\<lparr> directory_id = 1, path = ''/m/x'', mtime = 0 \<rparr>],
                          t_known_subdirs_dirty := False \<rparr>" locals_new]
  by (simp add: env0_def transaction0_def locals_new_def)

section \<open>Properties of the walker\<close>

subsection \<open>Unfolding the model on concrete worlds\<close>

lemmas fixture_defs = env0_def watcher0_def transaction0_def song0_def Song_new_def
  full_transaction_def rescan_transaction_def Subdirectory_new_def locals_new_def

lemmas visit_defs = symlink_in_collection_def has_marker_file_def unchanged_since_last_scan_def
  GetImmediateSubdirs_def fetch_known_subdirs_def SetKnownSubdirs_def HasSeenSubdir_def
  scan_contents_def Let_def emit_def list_child_def sValidImages_def ascii_lower_def section_dir_def
  left_of_last_def FindSongsInSubdirectory_def scan_file_def FindSongByPath_def ScanNewFile_def
  GetMtimeForCue_def ImageForSong_def look_for_deleted_def record_subdir_def AddToProgress_def
  AddToProgressMax_def changed_def cue_deleted_def cue_added_def has_cue_def has_embedded_cover_def
  kEmbeddedCover_def UpdateNonCueAssociatedSong_def UpdateCueAssociatedSongs_def
  PreserveUserSetData_def MergeUserSetData_def IsMetadataEqual_def length_nanosec_def
  sections_map_def queue_new_song_def remove_file_def

subsection \<open>The incremental short-circuit\<close>

text \<open>
  Claim C2. When the transaction does not ignore mtimes, the visit is not forced, the
  transaction is incremental and the stored mtime of the subdirectory equals the mtime
  of the directory on disk (both in whole seconds), \<^verbatim>\<open>ScanSubdirectory\<close> returns with
  one unit added to the progress and nothing else done: the only new action is the
  progress report, so the directory is not listed, no file is read and no subdirectory
  is visited. This holds whether or not a skip rule applies as well, since the skip
  rules end the visit in the same way.
\<close>

theorem incremental_short_circuit:
  "\<not> t_ignores_mtime t \<Longrightarrow> t_incremental t \<Longrightarrow> mtime subdir = lastModified env p \<Longrightarrow>
   ScanSubdirectory (Suc fuel) env p subdir False (w, t) =
     Inr (emit (SetTaskProgress (t_task_id t) (t_progress t + 1) (t_progress_max t)) w,
          t\<lparr> t_progress := t_progress t + 1 \<rparr>)"
  by (simp add: unchanged_since_last_scan_def AddToProgress_def Let_def)

text \<open>C2 at a directory with one file, stored and found with mtime 100.\<close>

theorem incremental_short_circuit_witness:
  "ScanSubdirectory 1 (env0\<lparr> lastModified := (\<lambda>p. 100), dir_entries := (\<lambda>p. [''/m/a.flac'']) \<rparr>) ''/m''
      \<lparr> directory_id = 1, path = ''/m'', mtime = 100 \<rparr> False (watcher0, transaction0) =
   Inr (watcher0\<lparr> trace := [SetTaskProgress 7 1 0] \<rparr>, transaction0\<lparr> t_progress := 1 \<rparr>)"
  using incremental_short_circuit [of transaction0
          "\<lparr> directory_id = 1, path = ''/m'', mtime = 100 \<rparr>"
          "env0\<lparr> lastModified := (\<lambda>p. 100), dir_entries := (\<lambda>p. [''/m/a.flac'']) \<rparr>" "''/m''" 0 watcher0]
  by (simp add: env0_def transaction0_def watcher0_def emit_def)

subsection \<open>The body of the loop over the files\<close>


lemma scan_file_stored:
  "FindSongByPath songs_in_db file = Some m \<Longrightarrow> file_exists env file \<Longrightarrow>
   scan_file env p songs_in_db file (l, w, t) =
     (let matching_cue = NoExtensionPart env file @ ''.cue'';
          img = fst (ImageForSong env w file (album_art l));
          wt1 = (if t_ignores_mtime t \<or> changed env file matching_cue m img
                 then (if \<not> cue_deleted env m \<and> (has_cue m \<or> cue_added env matching_cue m)
                       then UpdateCueAssociatedSongs env file p matching_cue img (w, t)
                       else UpdateNonCueAssociatedSong env file m img (cue_deleted env m) (w, t))
                 else (w, t))
      in (l\<lparr> album_art := snd (ImageForSong env w file (album_art l)) \<rparr>, fst wt1,
          if d_unavailable m then (snd wt1)\<lparr> readded_songs := readded_songs (snd wt1) @ [m] \<rparr>
          else snd wt1))"
  by (simp add: scan_file_def Let_def split_def)

lemma scan_file_new:
  "FindSongByPath songs_in_db file = None \<Longrightarrow>
   snd (scan_file env p songs_in_db file (l, w, t)) =
     (snd (snd (ScanNewFile env file p (NoExtensionPart env file @ ''.cue'') (cues_processed l) w)),
      t\<lparr> new_songs := new_songs t
           @ map (queue_new_song (t_dir t)
                    (fst (ImageForSong env
                            (snd (snd (ScanNewFile env file p
                               (NoExtensionPart env file @ ''.cue'') (cues_processed l) w)))
                            file (album_art l))))
               (fst (ScanNewFile env file p (NoExtensionPart env file @ ''.cue'') (cues_processed l) w)) \<rparr>)"
  by (simp add: scan_file_def Let_def split_def)

lemma PreserveUserSetData_frame:
  "readded_songs (snd (PreserveUserSetData img m out0 t)) = readded_songs t"
  "deleted_songs (snd (PreserveUserSetData img m out0 t)) = deleted_songs t"
  "t_dir (snd (PreserveUserSetData img m out0 t)) = t_dir t"
  by (simp_all add: PreserveUserSetData_def Let_def)











subsection \<open>Files with a stored song\<close>

lemma MergeUserSetData_id: "d_id (MergeUserSetData s other) = d_id s"
  by (simp add: MergeUserSetData_def)




subsection \<open>A file that vanished after the listing\<close>




subsection \<open>New files and cue sheets\<close>

text \<open>
  Claim C4, as amended. Let the sibling cue sheet of a file exist with nonzero mtime.
  If the cue sheet is not yet among the processed ones of this visit, \<^verbatim>\<open>ScanNewFile\<close>
  returns exactly the sections of the cue sheet whose media file, both paths
  normalised, is this file and which pass the media-file check; the cue sheet is
  loaded once and the tag reader is not called; the cue sheet joins the processed ones
  when a section was accepted. If the cue sheet is among the processed ones, nothing is
  returned and nothing is called, so a cue sheet that has given a track is not loaded
  again for a new file in the same visit. For a file without a stored song, the songs
  queued as new are the returned ones, each with the directory id and, where it has
  none, the art.
\<close>

theorem ScanNewFile_cue:
  "GetMtimeForCue env matching_cue \<noteq> 0 \<Longrightarrow>
   (matching_cue \<notin> cues \<longrightarrow>
      fst (ScanNewFile env file p matching_cue cues w) =
        filter (\<lambda>cue_song. normalized_D env (d_url cue_song) = normalized_D env file
                            \<and> IsMediaFileBlocking env file)
          (cue_Load env matching_cue p) \<and>
      fst (snd (ScanNewFile env file p matching_cue cues w)) =
        (if fst (ScanNewFile env file p matching_cue cues w) \<noteq> [] then insert matching_cue cues else cues) \<and>
      (\<exists>k. trace (snd (snd (ScanNewFile env file p matching_cue cues w))) =
             trace w @ CallCueLoad matching_cue # replicate k (CallIsMediaFile file))) \<and>
   (matching_cue \<in> cues \<longrightarrow> ScanNewFile env file p matching_cue cues w = ([], cues, w)) \<and>
   (fst (ScanNewFile env file p matching_cue cues w) \<noteq> [] \<longrightarrow>
      (\<forall>cues' file' p' w'. fst (snd (ScanNewFile env file p matching_cue cues w)) \<subseteq> cues' \<longrightarrow>
          ScanNewFile env file' p' matching_cue cues' w' = ([], cues', w'))) \<and>
   (FindSongByPath songs_in_db file = None \<and> matching_cue = NoExtensionPart env file @ ''.cue''
      \<and> cues = cues_processed l \<longrightarrow>
      new_songs (snd (snd (scan_file env p songs_in_db file (l, w, t)))) =
        new_songs t @
        map (queue_new_song (t_dir t)
               (fst (ImageForSong env (snd (snd (ScanNewFile env file p matching_cue cues w)))
                       file (album_art l))))
          (fst (ScanNewFile env file p matching_cue cues w)) \<and>
      fst (snd (scan_file env p songs_in_db file (l, w, t))) =
        snd (snd (ScanNewFile env file p matching_cue cues w)))"
proof -
  assume m: "GetMtimeForCue env matching_cue \<noteq> 0"
  have filt: "filter (\<lambda>cue_song. IsMediaFileBlocking env file)
                (filter (\<lambda>cue_song. normalized_D env (d_url cue_song) = normalized_D env file) xs) =
              filter (\<lambda>cue_song. normalized_D env (d_url cue_song) = normalized_D env file
                            \<and> IsMediaFileBlocking env file) xs" for xs
    by (induction xs) auto
  have a: "matching_cue \<notin> cues \<Longrightarrow>
      fst (ScanNewFile env file p matching_cue cues w) =
        filter (\<lambda>cue_song. normalized_D env (d_url cue_song) = normalized_D env file
                            \<and> IsMediaFileBlocking env file)
          (cue_Load env matching_cue p)"
    using m by (simp add: ScanNewFile_def Let_def filt)
  have b: "matching_cue \<notin> cues \<Longrightarrow> fst (snd (ScanNewFile env file p matching_cue cues w)) =
        (if fst (ScanNewFile env file p matching_cue cues w) \<noteq> [] then insert matching_cue cues else cues)"
    using m by (simp add: ScanNewFile_def Let_def)
  have c: "matching_cue \<notin> cues \<Longrightarrow> \<exists>k. trace (snd (snd (ScanNewFile env file p matching_cue cues w))) =
             trace w @ CallCueLoad matching_cue # replicate k (CallIsMediaFile file)"
    using m by (simp add: ScanNewFile_def Let_def map_replicate_const)
  have d: "ScanNewFile env file' p' matching_cue cues' w' = ([], cues', w')" if "matching_cue \<in> cues'"
    for cues' file' p' w'
    using m that by (simp add: ScanNewFile_def Let_def)
  have e: "matching_cue \<in> fst (snd (ScanNewFile env file p matching_cue cues w))"
    if "fst (ScanNewFile env file p matching_cue cues w) \<noteq> []"
    using m that by (cases "matching_cue \<in> cues") (simp_all add: ScanNewFile_def Let_def)
  have f: "new_songs (snd (snd (scan_file env p songs_in_db file (l, w, t)))) =
        new_songs t @
        map (queue_new_song (t_dir t)
               (fst (ImageForSong env (snd (snd (ScanNewFile env file p matching_cue cues w)))
                       file (album_art l))))
          (fst (ScanNewFile env file p matching_cue cues w)) \<and>
      fst (snd (scan_file env p songs_in_db file (l, w, t))) =
        snd (snd (ScanNewFile env file p matching_cue cues w))"
    if "FindSongByPath songs_in_db file = None" "matching_cue = NoExtensionPart env file @ ''.cue''"
       "cues = cues_processed l"
    using that by (simp add: scan_file_new)
  show ?thesis using a b c d e f by blast
qed

text \<open>C4 as amended, at a cue sheet with one section for each of two files.\<close>

theorem ScanNewFile_cue_witness:
  "fst (ScanNewFile env_cue ''/m/a.flac'' ''/m'' ''/m/a.cue'' {} watcher0) = [cue_section ''/m/a.flac'' 0] \<and>
   ScanNewFile env_cue ''/m/a.mp3'' ''/m'' ''/m/a.cue'' {''/m/a.cue''} watcher0 = ([], {''/m/a.cue''}, watcher0) \<and>
   ScanNewFile env_cue ''/m/a.mp3'' ''/m'' ''/m/a.cue''
      (fst (snd (ScanNewFile env_cue ''/m/a.flac'' ''/m'' ''/m/a.cue'' {} watcher0))) watcher0 =
     ([], fst (snd (ScanNewFile env_cue ''/m/a.flac'' ''/m'' ''/m/a.cue'' {} watcher0)), watcher0) \<and>
   map d_url (new_songs (snd (snd (scan_file env_cue ''/m'' [] ''/m/a.flac''
      (locals_new, watcher0, rescan_transaction))))) = [''/m/a.flac'']"
proof -
  have m: "GetMtimeForCue env_cue ''/m/a.cue'' \<noteq> 0"
    by (simp add: env_cue_def env0_def GetMtimeForCue_def)
  from ScanNewFile_cue [OF m, where cues = "{}" and ?file = "''/m/a.flac''" and p = "''/m''"
         and w = watcher0, THEN conjunct1]
  have 1: "fst (ScanNewFile env_cue ''/m/a.flac'' ''/m'' ''/m/a.cue'' {} watcher0) =
             [cue_section ''/m/a.flac'' 0]"
    by (simp add: env_cue_def env0_def cue_section_def)
  from ScanNewFile_cue [OF m, where cues = "{''/m/a.cue''}" and ?file = "''/m/a.mp3''" and p = "''/m''"
         and w = watcher0, THEN conjunct2, THEN conjunct1]
  have 2: "ScanNewFile env_cue ''/m/a.mp3'' ''/m'' ''/m/a.cue'' {''/m/a.cue''} watcher0 =
             ([], {''/m/a.cue''}, watcher0)"
    by simp
  from ScanNewFile_cue [OF m, where cues = "{}" and ?file = "''/m/a.flac''" and p = "''/m''"
         and w = watcher0, THEN conjunct2, THEN conjunct2, THEN conjunct1] 1
  have 3: "ScanNewFile env_cue ''/m/a.mp3'' ''/m'' ''/m/a.cue''
      (fst (snd (ScanNewFile env_cue ''/m/a.flac'' ''/m'' ''/m/a.cue'' {} watcher0))) watcher0 =
     ([], fst (snd (ScanNewFile env_cue ''/m/a.flac'' ''/m'' ''/m/a.cue'' {} watcher0)), watcher0)"
    by simp
  from ScanNewFile_cue [OF m, where cues = "{}" and ?file = "''/m/a.flac''" and p = "''/m''"
         and w = watcher0 and songs_in_db = "[]" and l = locals_new and t = rescan_transaction,
         THEN conjunct2, THEN conjunct2, THEN conjunct2] 1
  have 4: "map d_url (new_songs (snd (snd (scan_file env_cue ''/m'' [] ''/m/a.flac''
      (locals_new, watcher0, rescan_transaction))))) = [''/m/a.flac'']"
    by (simp add: FindSongByPath_def env_cue_def env0_def locals_new_def rescan_transaction_def
          transaction0_def queue_new_song_def cue_section_def Let_def)
  from 1 2 3 4 show ?thesis by simp
qed

text \<open>
  Claim C4 as stated fails for the second of two new files that share a cue sheet: the
  cue sheet has a section that points at \<open>/m/a.mp3\<close> and passes the check, yet the visit
  of the directory queues the section of \<open>/m/a.flac\<close> only.
\<close>

theorem cue_dedup_counterexample:
  "\<not> isl (ScanSubdirectory 1 env_cue ''/m'' Subdirectory_new False (watcher0, rescan_transaction)) \<and>
   map d_url (new_songs (snd (projr
      (ScanSubdirectory 1 env_cue ''/m'' Subdirectory_new False (watcher0, rescan_transaction))))) =
     [''/m/a.flac''] \<and>
   FindSongsInDirectory env_cue 1 = [] \<and>
   GetMtimeForCue env_cue (NoExtensionPart env_cue ''/m/a.mp3'' @ ''.cue'') = 50 \<and>
   cue_Load env_cue ''/m/a.cue'' ''/m'' = [cue_section ''/m/a.flac'' 0, cue_section ''/m/a.mp3'' 0] \<and>
   d_url (cue_section ''/m/a.mp3'' 0) = ''/m/a.mp3'' \<and>
   IsMediaFileBlocking env_cue ''/m/a.mp3''"
  by (simp add: env_cue_def cue_section_def fixture_defs visit_defs)

subsection \<open>A cue sheet that was removed\<close>

lemma IsMetadataEqual_cue_path:
  "d_cue_path a \<noteq> d_cue_path b \<Longrightarrow> \<not> IsMetadataEqual a b"
  by (simp add: IsMetadataEqual_def)

lemma IsMetadataEqual_beginning:
  "d_beginning a \<noteq> d_beginning b \<Longrightarrow> \<not> IsMetadataEqual a b"
  by (simp add: IsMetadataEqual_def)

lemma cue_deleted_changed: "cue_deleted env m \<Longrightarrow> changed env f c m i"
  by (simp add: changed_def)

lemma PreserveUserSetData_cue_lost:
  "d_cue_path kept \<noteq> [] \<Longrightarrow> d_cue_path out0 = [] \<Longrightarrow>
   snd (PreserveUserSetData img kept out0 t) =
     t\<lparr> new_songs := new_songs t @ [fst (PreserveUserSetData img kept out0 t)] \<rparr> \<and>
   fst (PreserveUserSetData img kept out0 t) =
     MergeUserSetData (if has_embedded_cover out0 then out0\<lparr> d_id := d_id kept \<rparr>
                       else out0\<lparr> d_id := d_id kept, d_art_automatic := img \<rparr>) kept"
proof -
  assume k: "d_cue_path kept \<noteq> []" and o: "d_cue_path out0 = []"
  have ne: "\<not> IsMetadataEqual kept
     (MergeUserSetData (if \<not> has_embedded_cover (out0\<lparr>d_id := d_id kept\<rparr>)
           then out0\<lparr>d_id := d_id kept, d_art_automatic := img\<rparr> else out0\<lparr>d_id := d_id kept\<rparr>) kept)"
    by (rule IsMetadataEqual_cue_path) (use k o in \<open>simp add: MergeUserSetData_def\<close>)
  show ?thesis
    using ne by (simp add: PreserveUserSetData_def Let_def has_embedded_cover_def)
qed

text \<open>
  Claim C5, as amended. Let a file exist whose first stored song, the kept one, has a
  cue path and whose cue sheet is gone. The visit of the file queues as deleted exactly
  the songs stored for the file that differ in metadata from the kept one, among them
  every one with another beginning; it reads the tags of the file once; and it queues
  the kept song as readded if that is marked unavailable. When the read gives a valid
  song without a cue path, it queues as new exactly one song: the song read, with the
  row id, play count, skip count, last-played time and manual art of the kept song.
  When the read gives no valid song, nothing is queued as new. In neither case is
  anything queued as touched.
\<close>

theorem cue_removed_downgrade:
  "FindSongByPath songs_in_db file = Some kept \<Longrightarrow> file_exists env file \<Longrightarrow>
   cue_deleted env kept \<Longrightarrow>
   deleted_songs (snd (snd (scan_file env p songs_in_db file (l, w, t)))) =
     deleted_songs t @ filter (\<lambda>song. \<not> IsMetadataEqual song kept) (GetSongsByUrl env file) \<and>
   (\<forall>song \<in> set (GetSongsByUrl env file). d_beginning song \<noteq> d_beginning kept \<longrightarrow>
      song \<in> set (deleted_songs (snd (snd (scan_file env p songs_in_db file (l, w, t)))))) \<and>
   trace (fst (snd (scan_file env p songs_in_db file (l, w, t)))) = trace w @ [CallReadFile file] \<and>
   readded_songs (snd (snd (scan_file env p songs_in_db file (l, w, t)))) =
     readded_songs t @ (if d_unavailable kept then [kept] else []) \<and>
   (d_valid (ReadFileBlocking env file ((Song_new (w_source w))\<lparr> d_directory_id := t_dir t \<rparr>)) \<and>
    d_cue_path (ReadFileBlocking env file ((Song_new (w_source w))\<lparr> d_directory_id := t_dir t \<rparr>)) = []
    \<longrightarrow>
    (\<exists>out.
      new_songs (snd (snd (scan_file env p songs_in_db file (l, w, t)))) = new_songs t @ [out] \<and>
      out = MergeUserSetData
              (if has_embedded_cover (ReadFileBlocking env file ((Song_new (w_source w))\<lparr> d_directory_id := t_dir t \<rparr>))
               then (ReadFileBlocking env file ((Song_new (w_source w))\<lparr> d_directory_id := t_dir t \<rparr>))
                      \<lparr> d_id := d_id kept \<rparr>
               else (ReadFileBlocking env file ((Song_new (w_source w))\<lparr> d_directory_id := t_dir t \<rparr>))
                      \<lparr> d_id := d_id kept,
                        d_art_automatic := fst (ImageForSong env w file (album_art l)) \<rparr>) kept \<and>
      d_id out = d_id kept \<and> d_cue_path out = [] \<and>
      d_playcount out = d_playcount kept \<and> d_skipcount out = d_skipcount kept \<and>
      d_lastplayed out = d_lastplayed kept \<and> d_art_manual out = d_art_manual kept) \<and>
    touched_songs (snd (snd (scan_file env p songs_in_db file (l, w, t)))) = touched_songs t) \<and>
   (\<not> d_valid (ReadFileBlocking env file ((Song_new (w_source w))\<lparr> d_directory_id := t_dir t \<rparr>))
    \<longrightarrow> new_songs (snd (snd (scan_file env p songs_in_db file (l, w, t)))) = new_songs t \<and>
        touched_songs (snd (snd (scan_file env p songs_in_db file (l, w, t)))) = touched_songs t)"
proof -
  assume f: "FindSongByPath songs_in_db file = Some kept" and e: "file_exists env file"
    and cd: "cue_deleted env kept"
  define rd where "rd = ReadFileBlocking env file ((Song_new (w_source w))\<lparr> d_directory_id := t_dir t \<rparr>)"
  define img where "img = fst (ImageForSong env w file (album_art l))"
  define t1 where "t1 = t\<lparr> deleted_songs := deleted_songs t
                        @ filter (\<lambda>song. \<not> IsMetadataEqual song kept) (GetSongsByUrl env file) \<rparr>"
  define out where "out = fst (PreserveUserSetData img kept rd t1)"
  define t2 where "t2 = (if d_valid rd then snd (PreserveUserSetData img kept rd t1) else t1)"
  have hc: "d_cue_path kept \<noteq> []" using cd by (simp add: cue_deleted_def has_cue_def)
  have U: "UpdateNonCueAssociatedSong env file kept img True (w, t) = (emit (CallReadFile file) w, t2)"
    unfolding rd_def t1_def t2_def by (simp add: UpdateNonCueAssociatedSong_def Let_def)
  have S: "snd (scan_file env p songs_in_db file (l, w, t)) =
             (emit (CallReadFile file) w,
              if d_unavailable kept then t2\<lparr> readded_songs := readded_songs t2 @ [kept] \<rparr> else t2)"
    using cd cue_deleted_changed [OF cd] U
    by (simp add: scan_file_stored [OF f e] Let_def img_def [symmetric])
  have frame: "readded_songs t2 = readded_songs t" "deleted_songs t2 = deleted_songs t1"
    by (simp_all add: t2_def PreserveUserSetData_frame t1_def)
  have P: "snd (PreserveUserSetData img kept rd t1) = t1\<lparr> new_songs := new_songs t1 @ [out] \<rparr>"
    and O: "out = MergeUserSetData (if has_embedded_cover rd then rd\<lparr> d_id := d_id kept \<rparr>
                                    else rd\<lparr> d_id := d_id kept, d_art_automatic := img \<rparr>) kept"
    if "d_cue_path rd = []"
    using PreserveUserSetData_cue_lost [OF hc that, of img t1] by (simp_all add: out_def)
  have fields: "d_id out = d_id kept" "d_cue_path out = []" "d_playcount out = d_playcount kept"
    "d_skipcount out = d_skipcount kept" "d_lastplayed out = d_lastplayed kept"
    "d_art_manual out = d_art_manual kept"
    if "d_cue_path rd = []"
    using that by (simp_all add: O [OF that] MergeUserSetData_def)
  have del: "song \<in> set (deleted_songs t1)"
    if "song \<in> set (GetSongsByUrl env file)" "d_beginning song \<noteq> d_beginning kept" for song
    using that IsMetadataEqual_beginning [of song kept] by (simp add: t1_def)
  have c1: "deleted_songs (snd (snd (scan_file env p songs_in_db file (l, w, t)))) =
     deleted_songs t @ filter (\<lambda>song. \<not> IsMetadataEqual song kept) (GetSongsByUrl env file)"
    by (simp add: S frame) (simp add: t1_def)
  have c2: "\<forall>song \<in> set (GetSongsByUrl env file). d_beginning song \<noteq> d_beginning kept \<longrightarrow>
      song \<in> set (deleted_songs (snd (snd (scan_file env p songs_in_db file (l, w, t)))))"
    using del by (simp add: S frame)
  have c3: "trace (fst (snd (scan_file env p songs_in_db file (l, w, t)))) = trace w @ [CallReadFile file]"
    by (simp add: S)
  have c4: "readded_songs (snd (snd (scan_file env p songs_in_db file (l, w, t)))) =
     readded_songs t @ (if d_unavailable kept then [kept] else [])"
    by (simp add: S frame)
  have nt: "new_songs (snd (snd (scan_file env p songs_in_db file (l, w, t)))) = new_songs t2"
    "touched_songs (snd (snd (scan_file env p songs_in_db file (l, w, t)))) = touched_songs t2"
    by (simp_all add: S)
  have c5: "(\<exists>out'.
      new_songs (snd (snd (scan_file env p songs_in_db file (l, w, t)))) = new_songs t @ [out'] \<and>
      out' = MergeUserSetData (if has_embedded_cover rd then rd\<lparr> d_id := d_id kept \<rparr>
                                else rd\<lparr> d_id := d_id kept, d_art_automatic := img \<rparr>) kept \<and>
      d_id out' = d_id kept \<and> d_cue_path out' = [] \<and>
      d_playcount out' = d_playcount kept \<and> d_skipcount out' = d_skipcount kept \<and>
      d_lastplayed out' = d_lastplayed kept \<and> d_art_manual out' = d_art_manual kept) \<and>
    touched_songs (snd (snd (scan_file env p songs_in_db file (l, w, t)))) = touched_songs t"
    if v: "d_valid rd" and nc: "d_cue_path rd = []"
  proof -
    have t2: "t2 = t1\<lparr> new_songs := new_songs t1 @ [out] \<rparr>"
      using v P [OF nc] by (simp add: t2_def)
    have "new_songs t2 = new_songs t @ [out]" "touched_songs t2 = touched_songs t"
      by (simp_all add: t2 t1_def)
    with O [OF nc] fields [OF nc] show ?thesis
      unfolding nt by blast
  qed
  have c6: "new_songs (snd (snd (scan_file env p songs_in_db file (l, w, t)))) = new_songs t \<and>
        touched_songs (snd (snd (scan_file env p songs_in_db file (l, w, t)))) = touched_songs t"
    if "\<not> d_valid rd"
    using that unfolding nt by (simp add: t2_def t1_def)
  show ?thesis
    using c1 c2 c3 c4 c5 c6
    unfolding rd_def [symmetric] img_def [symmetric]
    by blast
qed

text \<open>C5 as amended, at a file with two stored sections, readable and not.\<close>

theorem cue_removed_downgrade_witness:
  "map d_id (new_songs (snd (snd (scan_file env_cue_removed_readable ''/m''
       [stored_section 5 0, stored_section 6 100] ''/m/a.flac'' (locals_new, watcher0, rescan_transaction))))) = [5] \<and>
   map d_cue_path (new_songs (snd (snd (scan_file env_cue_removed_readable ''/m''
       [stored_section 5 0, stored_section 6 100] ''/m/a.flac'' (locals_new, watcher0, rescan_transaction))))) = [''''] \<and>
   deleted_songs (snd (snd (scan_file env_cue_removed_readable ''/m''
       [stored_section 5 0, stored_section 6 100] ''/m/a.flac'' (locals_new, watcher0, rescan_transaction)))) =
     [stored_section 6 100] \<and>
   new_songs (snd (snd (scan_file env_cue_removed ''/m''
       [stored_section 5 0, stored_section 6 100] ''/m/a.flac'' (locals_new, watcher0, rescan_transaction)))) = [] \<and>
   touched_songs (snd (snd (scan_file env_cue_removed ''/m''
       [stored_section 5 0, stored_section 6 100] ''/m/a.flac'' (locals_new, watcher0, rescan_transaction)))) = [] \<and>
   readded_songs (snd (snd (scan_file env_cue_removed ''/m''
       [stored_section 5 0, stored_section 6 100] ''/m/a.flac'' (locals_new, watcher0, rescan_transaction)))) = []"
  using cue_removed_downgrade [where songs_in_db = "[stored_section 5 0, stored_section 6 100]"
          and ?file = "''/m/a.flac''" and kept = "stored_section 5 0"
          and env = env_cue_removed_readable and w = watcher0 and t = rescan_transaction
          and p = "''/m''" and l = locals_new]
        cue_removed_downgrade [where songs_in_db = "[stored_section 5 0, stored_section 6 100]"
          and ?file = "''/m/a.flac''" and kept = "stored_section 5 0"
          and env = env_cue_removed and w = watcher0 and t = rescan_transaction
          and p = "''/m''" and l = locals_new]
  by (auto simp: env_cue_removed_readable_def env_cue_removed_def stored_section_def fixture_defs
        FindSongByPath_def cue_deleted_def GetMtimeForCue_def has_cue_def IsMetadataEqual_def)

text \<open>
  Claim C5 as stated fails when the tag reader gives no valid song: the other section is
  queued as deleted and nothing is queued for the kept one.
\<close>

theorem cue_removed_unreadable_counterexample:
  "\<not> isl (ScanSubdirectory 1 env_cue_removed ''/m'' Subdirectory_new False (watcher0, rescan_transaction)) \<and>
   map d_id (deleted_songs (snd (projr
      (ScanSubdirectory 1 env_cue_removed ''/m'' Subdirectory_new False (watcher0, rescan_transaction))))) = [6] \<and>
   new_songs (snd (projr
      (ScanSubdirectory 1 env_cue_removed ''/m'' Subdirectory_new False (watcher0, rescan_transaction)))) = [] \<and>
   touched_songs (snd (projr
      (ScanSubdirectory 1 env_cue_removed ''/m'' Subdirectory_new False (watcher0, rescan_transaction)))) = []"
  by (simp add: env_cue_removed_def stored_section_def fixture_defs visit_defs)

subsection \<open>Album art\<close>

lemma filter_images_first:
  "filter_images env fs images [] =
     (case find (\<lambda>f. matches env f images \<noteq> []) fs of None \<Rightarrow> [] | Some f \<Rightarrow> matches env f images)"
  by (induction fs) (simp_all add: matches_def Let_def)

lemma int32_id: "0 \<le> x \<Longrightarrow> x < 2 ^ 31 \<Longrightarrow> int32 x = x"
  unfolding int32_def by (simp add: sint_sbintrunc' signed_take_bit_int_eq_self)

lemma biggest_image_stop: "biggest_image env True ps bs bp = bp"
  by (cases ps) simp_all

lemma biggest_image_spec:
  "areas_fit env ps \<Longrightarrow>
   (biggest_image env False ps bs bp = bp \<and> (\<forall>p \<in> set ps. \<forall>a. pixel_area env p = Some a \<longrightarrow> a \<le> bs)) \<or>
   (\<exists>before after a. ps = before @ biggest_image env False ps bs bp # after \<and>
        pixel_area env (biggest_image env False ps bs bp) = Some a \<and> bs < a \<and>
        (\<forall>p \<in> set before. \<forall>a'. pixel_area env p = Some a' \<longrightarrow> a' < a) \<and>
        (\<forall>p \<in> set after. \<forall>a'. pixel_area env p = Some a' \<longrightarrow> a' \<le> a))"
proof (induction ps arbitrary: bs bp)
  case Nil
  then show ?case by simp
next
  case (Cons p ps)
  from Cons.prems have fit: "areas_fit env ps" by (simp add: areas_fit_def)
  let ?P = "\<lambda>qs r bs. \<exists>before after a. qs = before @ r # after \<and>
        pixel_area env r = Some a \<and> bs < a \<and>
        (\<forall>p \<in> set before. \<forall>a'. pixel_area env p = Some a' \<longrightarrow> a' < a) \<and>
        (\<forall>p \<in> set after. \<forall>a'. pixel_area env p = Some a' \<longrightarrow> a' \<le> a)"
  have grow: "?P (p # ps) r bs'"
    if "?P ps r bs" and "\<forall>a'. pixel_area env p = Some a' \<longrightarrow> a' \<le> bs" and "bs' \<le> bs" for r bs bs'
  proof -
    from that(1) obtain before after a where d: "ps = before @ r # after"
      "pixel_area env r = Some a" "bs < a"
      "\<forall>p \<in> set before. \<forall>a'. pixel_area env p = Some a' \<longrightarrow> a' < a"
      "\<forall>p \<in> set after. \<forall>a'. pixel_area env p = Some a' \<longrightarrow> a' \<le> a"
      by blast
    have "p # ps = (p # before) @ r # after" using d(1) by simp
    moreover have "\<forall>q \<in> set (p # before). \<forall>a'. pixel_area env q = Some a' \<longrightarrow> a' < a"
      using d(3,4) that(2) by auto
    moreover have "bs' < a" using d(3) that(3) by simp
    ultimately show ?thesis using d(2,5) by blast
  qed
  show ?case
  proof (cases "QImage_size env p")
    case None
    then have pa: "pixel_area env p = None" by (simp add: pixel_area_def)
    have step: "biggest_image env False (p # ps) bs bp = biggest_image env False ps bs bp"
      using None by simp
    from Cons.IH [OF fit, of bs bp] show ?thesis
    proof
      assume "biggest_image env False ps bs bp = bp \<and>
        (\<forall>p \<in> set ps. \<forall>a. pixel_area env p = Some a \<longrightarrow> a \<le> bs)"
      then show ?thesis unfolding step using pa by simp
    next
      assume "?P ps (biggest_image env False ps bs bp) bs"
      then have "?P (p # ps) (biggest_image env False ps bs bp) bs"
        by (rule grow) (simp_all add: pa)
      then show ?thesis unfolding step by (rule disjI2)
    qed
  next
    case (Some wh)
    obtain width height where wh: "wh = (width, height)" by (cases wh)
    have pa: "pixel_area env p = Some (width * height)" using Some wh by (simp add: pixel_area_def)
    with Cons.prems have "0 \<le> width * height" "width * height < 2 ^ 31" by (auto simp: areas_fit_def)
    then have i32: "int32 (width * height) = width * height" by (rule int32_id)
    show ?thesis
    proof (cases "width * height > bs")
      case True
      then have step: "biggest_image env False (p # ps) bs bp = biggest_image env False ps (width * height) p"
        using Some wh i32 by simp
      from Cons.IH [OF fit, of "width * height" p] show ?thesis
      proof
        assume h: "biggest_image env False ps (width * height) p = p \<and>
          (\<forall>q \<in> set ps. \<forall>a. pixel_area env q = Some a \<longrightarrow> a \<le> width * height)"
        have "p # ps = [] @ p # ps" by simp
        moreover have "\<forall>q \<in> set []. \<forall>a'. pixel_area env q = Some a' \<longrightarrow> a' < width * height" by simp
        ultimately have "?P (p # ps) p bs" using pa True h by blast
        then show ?thesis unfolding step using h by simp
      next
        assume "?P ps (biggest_image env False ps (width * height) p) (width * height)"
        then have "?P (p # ps) (biggest_image env False ps (width * height) p) bs"
          by (rule grow) (use pa True in simp_all)
        then show ?thesis unfolding step by (rule disjI2)
      qed
    next
      case False
      then have step: "biggest_image env False (p # ps) bs bp = biggest_image env False ps bs bp"
        using Some wh i32 by simp
      from Cons.IH [OF fit, of bs bp] show ?thesis
      proof
        assume "biggest_image env False ps bs bp = bp \<and>
          (\<forall>p \<in> set ps. \<forall>a. pixel_area env p = Some a \<longrightarrow> a \<le> bs)"
        then show ?thesis unfolding step using pa False by simp
      next
        assume "?P ps (biggest_image env False ps bs bp) bs"
        then have "?P (p # ps) (biggest_image env False ps bs bp) bs"
          by (rule grow) (use pa False in simp_all)
        then show ?thesis unfolding step by (rule disjI2)
      qed
    qed
  qed
qed

lemma biggest_image_single:
  "QImage_size env p = Some (width, height) \<Longrightarrow> 0 < width * height \<Longrightarrow> width * height < 2 ^ 31 \<Longrightarrow>
   biggest_image env False [p] 0 [] = p"
  by (simp add: int32_id)

lemma fileName_cover: "fileName (d @ ''/cover.jpg'') = ''cover.jpg''"
  by (simp add: fileName_def)

lemma fileName_folder: "fileName (d @ ''/folder.jpg'') = ''folder.jpg''"
  by (simp add: fileName_def)

lemma match_facts:
  assumes "insensitive_on_ascii env"
  shows "\<not> contains_insensitive env ''cover.jpg'' ''front''"
    "\<not> contains_insensitive env ''folder.jpg'' ''front''"
    "contains_insensitive env ''cover.jpg'' ''cover''"
    "\<not> contains_insensitive env ''folder.jpg'' ''cover''"
proof -
  have eq: "contains_insensitive env s sub = ascii_contains_insensitive s sub"
    if "is_ascii s" "is_ascii sub" for s sub
    using assms that unfolding insensitive_on_ascii_def by blast
  show "\<not> contains_insensitive env ''cover.jpg'' ''front''"
    by (subst eq) (simp_all add: is_ascii_def ascii_contains_insensitive_def ascii_lower_def)
  show "\<not> contains_insensitive env ''folder.jpg'' ''front''"
    by (subst eq) (simp_all add: is_ascii_def ascii_contains_insensitive_def ascii_lower_def)
  show "contains_insensitive env ''cover.jpg'' ''cover''"
    by (subst eq) (simp_all add: is_ascii_def ascii_contains_insensitive_def ascii_lower_def)
  show "\<not> contains_insensitive env ''folder.jpg'' ''cover''"
    by (subst eq) (simp_all add: is_ascii_def ascii_contains_insensitive_def ascii_lower_def)
qed

lemma PickBestImage_unfold:
  "PickBestImage env w images =
     biggest_image env (w_stop_requested w) (search_set env (w_best_image_filters w) images) 0 []"
proof (cases "find (\<lambda>f. matches env f images \<noteq> []) (w_best_image_filters w)")
  case None
  then show ?thesis by (simp add: PickBestImage_def filter_images_first search_set_def Let_def)
next
  case (Some f)
  then have "matches env f images \<noteq> []" by (auto simp: find_Some_iff)
  with Some show ?thesis by (simp add: PickBestImage_def filter_images_first search_set_def Let_def)
qed

lemma cover_wins:
  assumes ci: "insensitive_on_ascii env"
    and filters: "w_best_image_filters w = [''front'', ''cover'']"
    and images: "images = [d @ ''/cover.jpg'', d @ ''/folder.jpg''] \<or>
                 images = [d @ ''/folder.jpg'', d @ ''/cover.jpg'']"
  shows "search_set env (w_best_image_filters w) images = [d @ ''/cover.jpg'']"
  using images
  by (auto simp: filters search_set_def matches_def fileName_cover fileName_folder match_facts [OF ci])

text \<open>
  Claim C8, as amended. The biggest image is looked for in the search set: the matches
  of the first filter whose text is contained, whatever the case, in the file name of
  some candidate, and all the candidates when no filter matches one. When a stop is
  requested, \<^verbatim>\<open>PickBestImage\<close> gives no image. Otherwise, when the areas of the search
  set fit 32 bits, it gives the first image of the largest area of the search set if
  some image of the set loads with a positive area, and no image if none does. With
  the filters \<open>front\<close>, \<open>cover\<close> and the candidates \<open>cover.jpg\<close> and \<open>folder.jpg\<close> of one
  directory, in either order, the art of a song of that directory is \<open>cover.jpg\<close>, now
  and for the later songs of the visit, provided that no stop is requested and
  \<open>cover.jpg\<close> loads with a positive area below \<open>2^31\<close>.
\<close>

theorem art_selection:
  "(w_stop_requested w \<longrightarrow> PickBestImage env w images = []) \<and>
   (\<not> w_stop_requested w \<and> areas_fit env (search_set env (w_best_image_filters w) images) \<and>
    some_loads env (search_set env (w_best_image_filters w) images) \<longrightarrow>
      first_largest env (search_set env (w_best_image_filters w) images) (PickBestImage env w images)) \<and>
   (\<not> w_stop_requested w \<and> areas_fit env (search_set env (w_best_image_filters w) images) \<and>
    \<not> some_loads env (search_set env (w_best_image_filters w) images) \<longrightarrow>
      PickBestImage env w images = []) \<and>
   (insensitive_on_ascii env \<and>
    w_best_image_filters w = [''front'', ''cover''] \<and> \<not> w_stop_requested w \<and>
    (images = [d @ ''/cover.jpg'', d @ ''/folder.jpg''] \<or>
     images = [d @ ''/folder.jpg'', d @ ''/cover.jpg'']) \<and>
    art (DirectoryPart env file) = Some images \<and>
    QImage_size env (d @ ''/cover.jpg'') = Some (width, height) \<and>
    0 < width * height \<and> width * height < 2 ^ 31 \<longrightarrow>
      ImageForSong env w file art =
        (d @ ''/cover.jpg'', art(DirectoryPart env file \<mapsto> [d @ ''/cover.jpg''])) \<and>
      (DirectoryPart env file' = DirectoryPart env file \<longrightarrow>
         fst (ImageForSong env w file' (snd (ImageForSong env w file art))) = d @ ''/cover.jpg''))"
proof (intro conjI impI)
  assume "w_stop_requested w"
  then show "PickBestImage env w images = []"
    by (simp add: PickBestImage_unfold biggest_image_stop)
next
  let ?S = "search_set env (w_best_image_filters w) images"
  assume h: "\<not> w_stop_requested w \<and> areas_fit env ?S \<and> some_loads env ?S"
  then have P: "PickBestImage env w images = biggest_image env False ?S 0 []"
    by (simp add: PickBestImage_unfold)
  from h have fit: "areas_fit env ?S" by simp
  from h obtain q b where q: "q \<in> set ?S" "pixel_area env q = Some b" "0 < b"
    unfolding some_loads_def by blast
  from biggest_image_spec [OF fit, of 0 "[]"]
  show "first_largest env ?S (PickBestImage env w images)"
  proof
    assume "biggest_image env False ?S 0 [] = [] \<and>
      (\<forall>p \<in> set ?S. \<forall>a. pixel_area env p = Some a \<longrightarrow> a \<le> 0)"
    with q show ?thesis by force
  next
    assume "\<exists>before after a. ?S = before @ biggest_image env False ?S 0 [] # after \<and>
        pixel_area env (biggest_image env False ?S 0 []) = Some a \<and> 0 < a \<and>
        (\<forall>p \<in> set before. \<forall>a'. pixel_area env p = Some a' \<longrightarrow> a' < a) \<and>
        (\<forall>p \<in> set after. \<forall>a'. pixel_area env p = Some a' \<longrightarrow> a' \<le> a)"
    then show ?thesis unfolding first_largest_def P .
  qed
next
  let ?S = "search_set env (w_best_image_filters w) images"
  assume h: "\<not> w_stop_requested w \<and> areas_fit env ?S \<and> \<not> some_loads env ?S"
  then have P: "PickBestImage env w images = biggest_image env False ?S 0 []"
    by (simp add: PickBestImage_unfold)
  from h have fit: "areas_fit env ?S" by simp
  from h have none: "\<And>p a. p \<in> set ?S \<Longrightarrow> pixel_area env p = Some a \<Longrightarrow> \<not> 0 < a"
    unfolding some_loads_def by blast
  from biggest_image_spec [OF fit, of 0 "[]"]
  show "PickBestImage env w images = []"
  proof
    assume "biggest_image env False ?S 0 [] = [] \<and>
      (\<forall>p \<in> set ?S. \<forall>a. pixel_area env p = Some a \<longrightarrow> a \<le> 0)"
    then show ?thesis by (simp add: P)
  next
    assume "\<exists>before after a. ?S = before @ biggest_image env False ?S 0 [] # after \<and>
        pixel_area env (biggest_image env False ?S 0 []) = Some a \<and> 0 < a \<and>
        (\<forall>p \<in> set before. \<forall>a'. pixel_area env p = Some a' \<longrightarrow> a' < a) \<and>
        (\<forall>p \<in> set after. \<forall>a'. pixel_area env p = Some a' \<longrightarrow> a' \<le> a)"
    then obtain before after a where
      d: "?S = before @ biggest_image env False ?S 0 [] # after"
         "pixel_area env (biggest_image env False ?S 0 []) = Some a" "0 < a"
      by blast
    from d(1) have "biggest_image env False ?S 0 [] \<in> set ?S"
      by (metis in_set_conv_decomp)
    from none [OF this d(2)] d(3) show ?thesis by simp
  qed
next
  assume h: "insensitive_on_ascii env \<and>
    w_best_image_filters w = [''front'', ''cover''] \<and> \<not> w_stop_requested w \<and>
    (images = [d @ ''/cover.jpg'', d @ ''/folder.jpg''] \<or>
     images = [d @ ''/folder.jpg'', d @ ''/cover.jpg'']) \<and>
    art (DirectoryPart env file) = Some images \<and>
    QImage_size env (d @ ''/cover.jpg'') = Some (width, height) \<and>
    0 < width * height \<and> width * height < 2 ^ 31"
  then have len: "length images \<noteq> 1" by auto
  have cw: "search_set env (w_best_image_filters w) images = [d @ ''/cover.jpg'']"
    using h by (intro cover_wins) simp_all
  have "biggest_image env False [d @ ''/cover.jpg''] 0 [] = d @ ''/cover.jpg''"
    using h by (intro biggest_image_single [of _ _ width height]) simp_all
  with h have pick: "PickBestImage env w images = d @ ''/cover.jpg''"
    unfolding PickBestImage_unfold cw by simp
  show first: "ImageForSong env w file art =
        (d @ ''/cover.jpg'', art(DirectoryPart env file \<mapsto> [d @ ''/cover.jpg'']))"
    using h len pick by (simp add: ImageForSong_def Let_def)
  show "fst (ImageForSong env w file' (snd (ImageForSong env w file art))) = d @ ''/cover.jpg''"
    if "DirectoryPart env file' = DirectoryPart env file"
    using that by (simp add: first) (simp add: ImageForSong_def Let_def)
qed

text \<open>C8 as amended: two images of which the bigger one is \<open>folder.jpg\<close>, with a filter
  that matches, with one that does not, under a stop request, and with nothing that
  loads.\<close>

theorem art_selection_witness:
  "ImageForSong env_art_ok watcher0 ''/m/a.flac''
      [''/m'' \<mapsto> [''/m/folder.jpg'', ''/m/cover.jpg'']] =
     (''/m/cover.jpg'', [''/m'' \<mapsto> [''/m/cover.jpg'']]) \<and>
   PickBestImage env_art_ok (watcher0\<lparr> w_best_image_filters := [''front''] \<rparr>)
      [''/m/cover.jpg'', ''/m/folder.jpg''] = ''/m/folder.jpg'' \<and>
   PickBestImage env_art_ok (watcher0\<lparr> w_stop_requested := True \<rparr>)
      [''/m/cover.jpg'', ''/m/folder.jpg''] = [] \<and>
   PickBestImage env0 watcher0 [''/m/cover.jpg'', ''/m/folder.jpg''] = []"
proof -
  have ci: "insensitive_on_ascii env_art_ok"
    by (simp add: insensitive_on_ascii_def env_art_ok_def env0_def)
  have 1: "ImageForSong env_art_ok watcher0 ''/m/a.flac''
      [''/m'' \<mapsto> [''/m/folder.jpg'', ''/m/cover.jpg'']] =
     (''/m/cover.jpg'', [''/m'' \<mapsto> [''/m/cover.jpg'']])"
    using ci art_selection [where env = env_art_ok and w = watcher0 and d = "''/m''"
        and images = "[''/m/folder.jpg'', ''/m/cover.jpg'']" and ?file = "''/m/a.flac''"
        and art = "[''/m'' \<mapsto> [''/m/folder.jpg'', ''/m/cover.jpg'']]"
        and width = 300 and height = 300, THEN conjunct2, THEN conjunct2, THEN conjunct2]
    by (simp add: env_art_ok_def env0_def watcher0_def section_dir_def)
  have S: "search_set env_art_ok (w_best_image_filters (watcher0\<lparr> w_best_image_filters := [''front''] \<rparr>))
             [''/m/cover.jpg'', ''/m/folder.jpg''] = [''/m/cover.jpg'', ''/m/folder.jpg'']"
    by (simp add: search_set_def matches_def fileName_def env_art_ok_def env0_def
          ascii_contains_insensitive_def ascii_lower_def)
  have fit: "areas_fit env_art_ok [''/m/cover.jpg'', ''/m/folder.jpg'']"
    by (simp add: areas_fit_def pixel_area_def env_art_ok_def)
  have ex: "some_loads env_art_ok [''/m/cover.jpg'', ''/m/folder.jpg'']"
    by (simp add: some_loads_def pixel_area_def env_art_ok_def)
  have ns: "\<not> w_stop_requested (watcher0\<lparr> w_best_image_filters := [''front''] \<rparr>)"
    by (simp add: watcher0_def)
  from art_selection [where env = env_art_ok and w = "watcher0\<lparr> w_best_image_filters := [''front''] \<rparr>"
        and images = "[''/m/cover.jpg'', ''/m/folder.jpg'']", THEN conjunct2, THEN conjunct1]
       ns fit ex
  have "first_largest env_art_ok [''/m/cover.jpg'', ''/m/folder.jpg'']
          (PickBestImage env_art_ok (watcher0\<lparr> w_best_image_filters := [''front''] \<rparr>)
             [''/m/cover.jpg'', ''/m/folder.jpg''])"
    unfolding S by blast
  then have 2: "PickBestImage env_art_ok (watcher0\<lparr> w_best_image_filters := [''front''] \<rparr>)
      [''/m/cover.jpg'', ''/m/folder.jpg''] = ''/m/folder.jpg''"
    unfolding first_largest_def
    by (auto simp: pixel_area_def env_art_ok_def Cons_eq_append_conv split: if_splits)
  have 3: "PickBestImage env_art_ok (watcher0\<lparr> w_stop_requested := True \<rparr>)
      [''/m/cover.jpg'', ''/m/folder.jpg''] = []"
    using art_selection [where env = env_art_ok and w = "watcher0\<lparr> w_stop_requested := True \<rparr>"
        and images = "[''/m/cover.jpg'', ''/m/folder.jpg'']", THEN conjunct1]
    by simp
  have fit0: "areas_fit env0 (search_set env0 (w_best_image_filters watcher0) [''/m/cover.jpg'', ''/m/folder.jpg''])"
    by (simp add: areas_fit_def pixel_area_def env0_def)
  have no0: "\<not> some_loads env0 (search_set env0 (w_best_image_filters watcher0) [''/m/cover.jpg'', ''/m/folder.jpg''])"
    by (simp add: some_loads_def pixel_area_def env0_def)
  have 4: "PickBestImage env0 watcher0 [''/m/cover.jpg'', ''/m/folder.jpg''] = []"
    using art_selection [where env = env0 and w = watcher0
        and images = "[''/m/cover.jpg'', ''/m/folder.jpg'']", THEN conjunct2, THEN conjunct2, THEN conjunct1]
       fit0 no0
    by (simp add: watcher0_def)
  from 1 2 3 4 show ?thesis by simp
qed

text \<open>
  Claim C8 as stated fails when \<open>cover.jpg\<close> does not load: the new song of the
  directory gets no art, although \<open>folder.jpg\<close> loads.
\<close>

theorem unloadable_cover_counterexample:
  "\<not> isl (ScanSubdirectory 1 env_art_dir ''/m'' Subdirectory_new False (watcher0, rescan_transaction)) \<and>
   map d_url (new_songs (snd (projr
      (ScanSubdirectory 1 env_art_dir ''/m'' Subdirectory_new False (watcher0, rescan_transaction))))) =
     [''/m/a.flac''] \<and>
   map d_art_automatic (new_songs (snd (projr
      (ScanSubdirectory 1 env_art_dir ''/m'' Subdirectory_new False (watcher0, rescan_transaction))))) =
     [''''] \<and>
   w_best_image_filters watcher0 = [''front'', ''cover''] \<and>
   QImage_size env_art_dir ''/m/cover.jpg'' = None \<and>
   QImage_size env_art_dir ''/m/folder.jpg'' = Some (500, 500)"
  by (simp add: env_art_dir_def fixture_defs visit_defs PickBestImage_def
        ascii_contains_insensitive_def fileName_def)

end
